theory Spec2Isabelle
  imports Main "HOL-Library.Multiset"
begin

section \<open>The board of the territorial conquest game (risk.py)\<close>

subsection \<open>Python values and failures\<close>

text \<open>
  The exceptions the code can raise: a failed \<open>assert\<close>, a list index out of range
  and a key missing from one of the static tables of the \<open>definitions\<close> module.
\<close>

datatype error = AssertionError | IndexError | KeyError

text \<open>
  A territory record is the tuple \<open>(territory_id, player_id, armies)\<close> of the source.
\<close>

type_synonym territory = "int \<times> int \<times> int"

fun terr_id :: "territory \<Rightarrow> int" where
  "terr_id (tid, pid, arm) = tid"

fun terr_owner :: "territory \<Rightarrow> int" where
  "terr_owner (tid, pid, arm) = pid"

fun terr_armies :: "territory \<Rightarrow> int" where
  "terr_armies (tid, pid, arm) = arm"

text \<open>
  Python list indexing: a negative index counts from the end of the list, and an index
  outside \<open>-len .. len - 1\<close> raises \<open>IndexError\<close>, for a read as for a store.
\<close>

definition index_py :: "'a list \<Rightarrow> int \<Rightarrow> error + nat" where
  "index_py xs i =
     (let n = int (length xs); j = (if i < 0 then n + i else i)
      in if 0 \<le> j \<and> j < n then Inr (nat j) else Inl IndexError)"

definition getitem :: "'a list \<Rightarrow> int \<Rightarrow> error + 'a" where
  "getitem xs i = (case index_py xs i of Inl e \<Rightarrow> Inl e | Inr j \<Rightarrow> Inr (xs ! j))"

definition setitem :: "'a list \<Rightarrow> int \<Rightarrow> 'a \<Rightarrow> error + 'a list" where
  "setitem xs i v = (case index_py xs i of Inl e \<Rightarrow> Inl e | Inr j \<Rightarrow> Inr (xs[j := v]))"

text \<open>\<open>range(n)\<close> is the list \<open>0, ..., n - 1\<close>, empty when \<open>n \<le> 0\<close>.\<close>

definition range_py :: "int \<Rightarrow> int list" where
  "range_py n = map int [0..<nat n]"

text \<open>\<open>enumerate(xs)\<close> pairs every element with its position.\<close>

definition enumerate_py :: "'a list \<Rightarrow> (int \<times> 'a) list" where
  "enumerate_py xs = zip (map int [0..<length xs]) xs"

subsection \<open>The static map (module \<open>definitions\<close>)\<close>

text \<open>
  The module \<open>definitions\<close> is not part of the sources; its tables are parameters of the
  model. \<open>territory_neighbors\<close> and \<open>continent_territories\<close> are read with
  \<open>table[key]\<close>, which raises for a missing key, and \<open>continent_bonuses\<close> is a
  dictionary read through \<open>items()\<close>: the list of its (continent id, bonus) pairs.
\<close>

record definitions =
  territory_neighbors :: "int \<rightharpoonup> int list"
  continent_territories :: "int \<rightharpoonup> int list"
  continent_bonuses :: "(int \<times> int) list"

subsection \<open>Class \<open>Board\<close>\<close>

datatype board = Board (data: "territory list")

text \<open>
  The source is Python 2: \<open>range\<close> returns a list, which \<open>* 42\<close> repeats, and \<open>/\<close> on
  two integers is floor division.

  \<open>Board.create\<close>: the allocation \<open>(range(n_players)*42)[0:42]\<close> is shuffled in place by
  \<open>random.shuffle\<close>, which is a parameter here: the function that maps the list to the
  order the shuffle leaves it in.
\<close>

definition allocation :: "int \<Rightarrow> int list" where
  "allocation n_players = take 42 (concat (replicate 42 (range_py n_players)))"

definition create :: "(int list \<Rightarrow> int list) \<Rightarrow> int \<Rightarrow> board" where
  "create shuffle n_players =
     Board (map (\<lambda>(tid, pid). (tid, pid, 1)) (enumerate_py (shuffle (allocation n_players))))"

definition owner :: "board \<Rightarrow> int \<Rightarrow> error + int" where
  "owner b territory_id =
     (case getitem (data b) territory_id of Inl e \<Rightarrow> Inl e | Inr t \<Rightarrow> Inr (terr_owner t))"

definition armies :: "board \<Rightarrow> int \<Rightarrow> error + int" where
  "armies b territory_id =
     (case getitem (data b) territory_id of Inl e \<Rightarrow> Inl e | Inr t \<Rightarrow> Inr (terr_armies t))"

text \<open>
  The mutators change the board in place. They return the outcome of the call together
  with the board as the call leaves it, also when the call raises.
\<close>

definition set_owner :: "board \<Rightarrow> int \<Rightarrow> int \<Rightarrow> (error + unit) \<times> board" where
  "set_owner b territory_id player_id =
     (case armies b territory_id of
        Inl e \<Rightarrow> (Inl e, b)
      | Inr arm \<Rightarrow>
          (case setitem (data b) territory_id (territory_id, player_id, arm) of
             Inl e \<Rightarrow> (Inl e, b)
           | Inr d \<Rightarrow> (Inr (), Board d)))"

definition set_armies :: "board \<Rightarrow> int \<Rightarrow> int \<Rightarrow> (error + unit) \<times> board" where
  "set_armies b territory_id n =
     (if \<not> n > 0 then (Inl AssertionError, b)
      else case owner b territory_id of
        Inl e \<Rightarrow> (Inl e, b)
      | Inr player_id \<Rightarrow>
          (case setitem (data b) territory_id (territory_id, player_id, n) of
             Inl e \<Rightarrow> (Inl e, b)
           | Inr d \<Rightarrow> (Inr (), Board d)))"

definition add_armies :: "board \<Rightarrow> int \<Rightarrow> int \<Rightarrow> (error + unit) \<times> board" where
  "add_armies b territory_id n =
     (case armies b territory_id of
        Inl e \<Rightarrow> (Inl e, b)
      | Inr arm \<Rightarrow> set_armies b territory_id (arm + n))"

definition n_armies :: "board \<Rightarrow> int \<Rightarrow> int" where
  "n_armies b player_id =
     sum_list (map terr_armies (filter (\<lambda>t. terr_owner t = player_id) (data b)))"

definition n_territories :: "board \<Rightarrow> int \<Rightarrow> int" where
  "n_territories b player_id =
     int (length (map terr_owner (filter (\<lambda>t. terr_owner t = player_id) (data b))))"

text \<open>
  A generator expression \<open>(x for x in xs if cond(x))\<close> evaluates its condition once for
  every element when it is consumed, and the first condition that raises ends it.
\<close>

fun filter_res :: "('a \<Rightarrow> error + bool) \<Rightarrow> 'a list \<Rightarrow> error + 'a list" where
  "filter_res c [] = Inr []"
| "filter_res c (x # xs) =
     (case c x of
        Inl e \<Rightarrow> Inl e
      | Inr t \<Rightarrow>
          (case filter_res c xs of
             Inl e \<Rightarrow> Inl e
           | Inr ys \<Rightarrow> Inr (if t then x # ys else ys)))"

definition offensive :: "board \<Rightarrow> int \<Rightarrow> territory list" where
  "offensive b player_id =
     filter (\<lambda>t. terr_owner t = player_id \<and> terr_armies t > 1) (data b)"

definition neighbors :: "definitions \<Rightarrow> board \<Rightarrow> int \<Rightarrow> error + territory list" where
  "neighbors defs b territory_id =
     (case territory_neighbors defs territory_id of
        None \<Rightarrow> Inl KeyError
      | Some neighbor_ids \<Rightarrow> Inr (filter (\<lambda>t. terr_id t \<in> set neighbor_ids) (data b)))"

definition hostile_neighbors :: "definitions \<Rightarrow> board \<Rightarrow> int \<Rightarrow> error + territory list" where
  "hostile_neighbors defs b territory_id =
     (case owner b territory_id of
        Inl e \<Rightarrow> Inl e
      | Inr player_id \<Rightarrow>
          (case territory_neighbors defs territory_id of
             None \<Rightarrow> Inl KeyError
           | Some neighbor_ids \<Rightarrow>
               Inr (filter (\<lambda>t. terr_owner t \<noteq> player_id \<and> terr_id t \<in> set neighbor_ids)
                      (data b))))"

text \<open>
  \<open>possible_attacks\<close> is a list comprehension with two \<open>for\<close> clauses: for every
  offensive territory, in order, the hostile neighbours of its id are computed and
  one tuple per neighbour is appended.
\<close>

type_synonym attack = "int \<times> int \<times> int \<times> int \<times> int"

fun attacks_from :: "definitions \<Rightarrow> board \<Rightarrow> territory list \<Rightarrow> error + attack list" where
  "attacks_from defs b [] = Inr []"
| "attacks_from defs b ((fr_tid, fr_pid, fr_arm) # rest) =
     (case hostile_neighbors defs b fr_tid of
        Inl e \<Rightarrow> Inl e
      | Inr hs \<Rightarrow>
          (case attacks_from defs b rest of
             Inl e \<Rightarrow> Inl e
           | Inr others \<Rightarrow>
               Inr (map (\<lambda>(to_tid, to_pid, to_arm). (fr_tid, fr_arm, to_tid, to_pid, to_arm)) hs
                    @ others)))"

definition possible_attacks :: "definitions \<Rightarrow> board \<Rightarrow> int \<Rightarrow> error + attack list" where
  "possible_attacks defs b player_id = attacks_from defs b (offensive b player_id)"

text \<open>
  \<open>continent\<close> looks the member table up inside the condition of its generator, so a
  continent id missing from the table raises only when the board has a record.
\<close>

definition continent :: "definitions \<Rightarrow> board \<Rightarrow> int \<Rightarrow> error + territory list" where
  "continent defs b continent_id =
     filter_res
       (\<lambda>t. case continent_territories defs continent_id of
              None \<Rightarrow> Inl KeyError
            | Some members \<Rightarrow> Inr (terr_id t \<in> set members))
       (data b)"

text \<open>
  \<open>continent_owner\<close> builds the Python set of the owners in the continent; the set is
  the list of its distinct values here. \<open>None\<close> is the value for "no single owner".
\<close>

definition continent_owner :: "definitions \<Rightarrow> board \<Rightarrow> int \<Rightarrow> error + int option" where
  "continent_owner defs b continent_id =
     (case continent defs b continent_id of
        Inl e \<Rightarrow> Inl e
      | Inr c \<Rightarrow>
          (let pids = remdups (map terr_owner c)
           in if length pids = 1 then Inr (Some (hd pids)) else Inr None))"

definition n_continents :: "definitions \<Rightarrow> board \<Rightarrow> int \<Rightarrow> error + int" where
  "n_continents defs b player_id =
     (case filter_res
             (\<lambda>continent_id.
                case continent_owner defs b continent_id of
                  Inl e \<Rightarrow> Inl e
                | Inr ow \<Rightarrow> Inr (ow = Some player_id))
             (range_py 6) of
        Inl e \<Rightarrow> Inl e
      | Inr cs \<Rightarrow> Inr (int (length cs)))"

text \<open>
  The loop of \<open>reinforcements\<close> over \<open>continent_bonuses.items()\<close>, with the bonus
  accumulated so far.
\<close>

fun bonus_loop :: "definitions \<Rightarrow> board \<Rightarrow> int \<Rightarrow> (int \<times> int) list \<Rightarrow> int \<Rightarrow> error + int" where
  "bonus_loop defs b player_id [] bonus_reinforcements = Inr bonus_reinforcements"
| "bonus_loop defs b player_id ((continent_id, bonus) # rest) bonus_reinforcements =
     (case continent_owner defs b continent_id of
        Inl e \<Rightarrow> Inl e
      | Inr ow \<Rightarrow>
          bonus_loop defs b player_id rest
            (if ow = Some player_id then bonus_reinforcements + bonus
             else bonus_reinforcements))"

definition reinforcements :: "definitions \<Rightarrow> board \<Rightarrow> int \<Rightarrow> error + int" where
  "reinforcements defs b player_id =
     (let base_reinforcements = max 3 (n_territories b player_id div 3)
      in case bonus_loop defs b player_id (continent_bonuses defs) 0 of
           Inl e \<Rightarrow> Inl e
         | Inr bonus_reinforcements \<Rightarrow> Inr (base_reinforcements + bonus_reinforcements))"

subsection \<open>Class \<open>Player\<close>\<close>

datatype player = Player (pid: int) (name: string)

text \<open>The constructor asserts \<open>pid in range(6)\<close> before it stores anything.\<close>

definition player_init :: "int \<Rightarrow> string \<Rightarrow> error + player" where
  "player_init p nm =
     (if p \<in> set (range_py 6) then Inr (Player p nm) else Inl AssertionError)"

subsection \<open>Invariants, and properties in the words of the specification\<close>

text \<open>
  The allocation as the specification words it: the player ids \<open>0, ..., n_players - 1\<close>
  repeated cyclically until 42 entries are filled.
\<close>

definition cyclic_allocation :: "int \<Rightarrow> int list" where
  "cyclic_allocation n_players = map (\<lambda>i. int i mod n_players) [0..<42]"

text \<open>
  Army positivity, the invariant of the data model: every record of the board holds at
  least one army.
\<close>

definition armies_positive :: "board \<Rightarrow> bool" where
  "armies_positive b = list_all (\<lambda>t. terr_armies t \<ge> 1) (data b)"

text \<open>
  Positional agreement: the record stored at position \<open>i\<close> has \<open>i\<close> as its territory
  id. The lookups \<open>owner\<close> and \<open>armies\<close> read position \<open>territory_id\<close>, the queries
  read the id stored in the record.
\<close>

definition self_indexed :: "board \<Rightarrow> bool" where
  "self_indexed b = (map terr_id (data b) = map int [0..<length (data b)])"

text \<open>
  The entries of the bonus table for the continents whose \<open>continent_owner\<close> is the
  player: the continents the specification sums the bonus over.
\<close>

definition owned_bonuses :: "definitions \<Rightarrow> board \<Rightarrow> int \<Rightarrow> (int \<times> int) list" where
  "owned_bonuses defs b player_id =
     filter (\<lambda>(continent_id, bonus). continent_owner defs b continent_id = Inr (Some player_id))
       (continent_bonuses defs)"

text \<open>
  An auxiliary of the proofs, the attack tuples of one attacking record: one per record
  of the board that has another owner and whose id is in the neighbour list of the
  attacker.
\<close>

definition attacks_of :: "definitions \<Rightarrow> board \<Rightarrow> territory \<Rightarrow> attack list" where
  "attacks_of defs b fr =
     map (\<lambda>(to_tid, to_pid, to_arm). (terr_id fr, terr_armies fr, to_tid, to_pid, to_arm))
       (filter (\<lambda>t. terr_owner t \<noteq> terr_owner fr
                  \<and> terr_id t \<in> set (case territory_neighbors defs (terr_id fr) of
                                        None \<Rightarrow> [] | Some neighbor_ids \<Rightarrow> neighbor_ids))
          (data b))"

text \<open>
  The attacks as the specification words them: the tuples
  \<open>(from_id, from_armies, to_id, to_owner, to_armies)\<close> where \<open>(from_id, player_id, from_armies)\<close>
  is a record of the player with more than one army and \<open>(to_id, to_owner, to_armies)\<close> is
  a record of a neighbour of \<open>from_id\<close> with another owner.
\<close>

definition attack_set :: "definitions \<Rightarrow> board \<Rightarrow> int \<Rightarrow> attack set" where
  "attack_set defs b p = {(f, fa, t, tp, ta).
               (f, p, fa) \<in> set (data b) \<and> 1 < fa
               \<and> (t, tp, ta) \<in> set (data b) \<and> tp \<noteq> p
               \<and> (\<exists>ns. territory_neighbors defs f = Some ns \<and> t \<in> set ns)}"

section \<open>Creating a board\<close>

lemma length_concat_replicate: "length (concat (replicate k xs)) = k * length xs"
  by (induction k) simp_all

lemma nth_concat_replicate:
  "i < k * length xs \<Longrightarrow> concat (replicate k xs) ! i = xs ! (i mod length xs)"
proof (induction k arbitrary: i)
  case 0
  then show ?case by simp
next
  case (Suc k)
  show ?case
  proof (cases "i < length xs")
    case True
    then show ?thesis by (simp add: nth_append)
  next
    case False
    then have "i - length xs < k * length xs" using Suc.prems by simp
    then have "concat (replicate k xs) ! (i - length xs) = xs ! ((i - length xs) mod length xs)"
      by (rule Suc.IH)
    with False show ?thesis by (simp add: nth_append le_mod_geq)
  qed
qed

lemma length_range_py: "length (range_py n) = nat n"
  by (simp add: range_py_def)

lemma set_range_py: "set (range_py n) = {0..<n}"
proof -
  have "int ` {0..<nat n} = {0..<n}"
  proof (rule set_eqI)
    fix x
    show "x \<in> int ` {0..<nat n} \<longleftrightarrow> x \<in> {0..<n}"
    proof
      assume "x \<in> int ` {0..<nat n}"
      then show "x \<in> {0..<n}" by auto
    next
      assume "x \<in> {0..<n}"
      then have "x = int (nat x)" and "nat x \<in> {0..<nat n}" by auto
      then show "x \<in> int ` {0..<nat n}" by (rule image_eqI)
    qed
  qed
  then show ?thesis by (simp add: range_py_def)
qed

lemma length_allocation: "1 \<le> n \<Longrightarrow> length (allocation n) = 42"
  by (simp add: allocation_def length_concat_replicate length_range_py)

lemma set_allocation: "set (allocation n) \<subseteq> {0..<n}"
proof -
  have "set (allocation n) \<subseteq> set (concat (replicate 42 (range_py n)))"
    unfolding allocation_def by (rule set_take_subset)
  also have "\<dots> \<subseteq> set (range_py n)" by auto
  finally show ?thesis by (simp add: set_range_py)
qed

lemma allocation_cyclic: "1 \<le> n \<Longrightarrow> allocation n = cyclic_allocation n"
proof (rule nth_equalityI)
  assume n: "1 \<le> n"
  show "length (allocation n) = length (cyclic_allocation n)"
    using n by (simp add: length_allocation cyclic_allocation_def)
  fix i assume "i < length (allocation n)"
  then have i: "i < 42" using n by (simp add: length_allocation)
  have pos: "0 < nat n" using n by simp
  have "42 \<le> 42 * nat n" using pos by simp
  with i have bound: "i < 42 * nat n" by linarith
  have a: "allocation n ! i = concat (replicate 42 (range_py n)) ! i"
    unfolding allocation_def using i by (rule nth_take)
  have "i < 42 * length (range_py n)"
    using bound by (simp only: length_range_py)
  then have b: "concat (replicate 42 (range_py n)) ! i = range_py n ! (i mod length (range_py n))"
    by (rule nth_concat_replicate)
  have c: "range_py n ! (i mod nat n) = int (i mod nat n)"
    using pos by (simp add: range_py_def)
  have d: "int (i mod nat n) = int i mod n"
    using n by (simp add: zmod_int)
  have e: "cyclic_allocation n ! i = int i mod n"
    using i by (simp add: cyclic_allocation_def)
  show "allocation n ! i = cyclic_allocation n ! i"
    by (simp only: a b c d e length_range_py)
qed

lemma data_create_nth:
  "i < length (shuffle (allocation n)) \<Longrightarrow>
   data (create shuffle n) ! i = (int i, shuffle (allocation n) ! i, 1)"
  by (simp add: create_def enumerate_py_def)

lemma length_data_create: "length (data (create shuffle n)) = length (shuffle (allocation n))"
  by (simp add: create_def enumerate_py_def)

lemma ids_create: "map terr_id (data (create shuffle n)) = map int [0..<length (shuffle (allocation n))]"
  by (rule nth_equalityI) (simp_all add: length_data_create data_create_nth)

lemma owners_create: "map terr_owner (data (create shuffle n)) = shuffle (allocation n)"
  by (rule nth_equalityI) (simp_all add: length_data_create data_create_nth)

lemma armies_create: "t \<in> set (data (create shuffle n)) \<Longrightarrow> terr_armies t = 1"
  by (auto simp: in_set_conv_nth length_data_create data_create_nth)

lemma count_tab:
  "map (count_list (allocation 1)) [0] = [42]"
  "map (count_list (allocation 2)) [0, 1] = [21, 21]"
  "map (count_list (allocation 3)) [0, 1, 2] = [14, 14, 14]"
  "map (count_list (allocation 4)) [0, 1, 2, 3] = [11, 11, 10, 10]"
  "map (count_list (allocation 5)) [0, 1, 2, 3, 4] = [9, 9, 8, 8, 8]"
  "map (count_list (allocation 6)) [0, 1, 2, 3, 4, 5] = [7, 7, 7, 7, 7, 7]"
  by code_simp+

lemma length_filter_owner:
  "length (filter (\<lambda>t. terr_owner t = p) xs) = count_list (map terr_owner xs) p"
  by (induction xs) simp_all

lemma n_territories_count:
  "n_territories b p = int (count_list (map terr_owner (data b)) p)"
  by (simp add: n_territories_def length_filter_owner)

lemma n_territories_create:
  assumes "mset (shuffle (allocation n)) = mset (allocation n)"
  shows "n_territories (create shuffle n) p = int (count_list (allocation n) p)"
proof -
  have "count_list (shuffle (allocation n)) p = count (mset (shuffle (allocation n))) p"
    by (simp only: count_mset)
  also have "\<dots> = count_list (allocation n) p"
    by (simp only: assms count_mset)
  finally show ?thesis by (simp add: n_territories_count owners_create)
qed

lemma count_allocation:
  assumes "1 \<le> n" "n \<le> 6" "0 \<le> p" "p < n"
  shows "int (count_list (allocation n) p) = 42 div n
       \<or> int (count_list (allocation n) p) = (42 + n - 1) div n"
proof -
  from assms have "n = 1 \<or> n = 2 \<or> n = 3 \<or> n = 4 \<or> n = 5 \<or> n = 6" by arith
  then show ?thesis
  proof (elim disjE)
    assume n: "n = 1"
    with assms have "p = 0" by arith
    with n count_tab(1) show ?thesis by simp
  next
    assume n: "n = 2"
    with assms have "p = 0 \<or> p = 1" by arith
    with n count_tab(2) show ?thesis by auto
  next
    assume n: "n = 3"
    with assms have "p = 0 \<or> p = 1 \<or> p = 2" by arith
    with n count_tab(3) show ?thesis by auto
  next
    assume n: "n = 4"
    with assms have "p = 0 \<or> p = 1 \<or> p = 2 \<or> p = 3" by arith
    with n count_tab(4) show ?thesis by auto
  next
    assume n: "n = 5"
    with assms have "p = 0 \<or> p = 1 \<or> p = 2 \<or> p = 3 \<or> p = 4" by arith
    with n count_tab(5) show ?thesis by auto
  next
    assume n: "n = 6"
    with assms have "p = 0 \<or> p = 1 \<or> p = 2 \<or> p = 3 \<or> p = 4 \<or> p = 5" by arith
    with n count_tab(6) show ?thesis by auto
  qed
qed


text \<open>
  Claim C1. For every \<open>n_players \<ge> 1\<close> (so for every one in 1..6) and every order
  the shuffle leaves the allocation in (any list with the same elements, counted with
  multiplicity), \<open>Board.create(n_players)\<close> holds exactly 42 records, the record at
  position \<open>i\<close> has territory id \<open>i\<close> (the ids are 0..41, each once), every record has
  one army and an owner in \<open>range(n_players)\<close>, and the multiset of the owners is the
  multiset of the cyclic list \<open>0, ..., n_players - 1\<close> cut at 42 entries.
\<close>

theorem create_full_allocation:
  assumes "1 \<le> n_players"
    and "mset (shuffle (allocation n_players)) = mset (allocation n_players)"
  shows "length (data (create shuffle n_players)) = 42
       \<and> map terr_id (data (create shuffle n_players)) = range_py 42
       \<and> (\<forall>t \<in> set (data (create shuffle n_players)).
             terr_armies t = 1 \<and> terr_owner t \<in> set (range_py n_players))
       \<and> mset (map terr_owner (data (create shuffle n_players)))
           = mset (cyclic_allocation n_players)"
proof -
  let ?b = "create shuffle n_players"
  have "length (shuffle (allocation n_players)) = length (allocation n_players)"
    using assms(2) by (rule mset_eq_length)
  then have len: "length (shuffle (allocation n_players)) = 42"
    using assms(1) by (simp add: length_allocation)
  have c1: "length (data ?b) = 42"
    by (simp add: length_data_create len)
  have c2: "map terr_id (data ?b) = range_py 42"
    by (simp add: ids_create len range_py_def)
  have "set (shuffle (allocation n_players)) = set (allocation n_players)"
    using assms(2) by (rule mset_eq_setD)
  then have "set (map terr_owner (data ?b)) \<subseteq> set (range_py n_players)"
    using set_allocation [of n_players] by (simp add: owners_create set_range_py)
  then have own: "terr_owner t \<in> set (range_py n_players)" if "t \<in> set (data ?b)" for t
    using that by auto
  have c3: "\<forall>t \<in> set (data ?b). terr_armies t = 1 \<and> terr_owner t \<in> set (range_py n_players)"
    using own armies_create by blast
  have c4: "mset (map terr_owner (data ?b)) = mset (cyclic_allocation n_players)"
    using assms by (simp add: owners_create allocation_cyclic)
  from c1 c2 c3 c4 show ?thesis by blast
qed

text \<open>Four players, the shuffle that reverses the list.\<close>

theorem create_full_allocation_witness:
  "(1::int) \<le> 4 \<and> mset (rev (allocation 4)) = mset (allocation 4)
   \<and> length (data (create rev 4)) = 42
   \<and> map terr_id (data (create rev 4)) = range_py 42
   \<and> list_all (\<lambda>t. terr_armies t = 1 \<and> terr_owner t \<in> set (range_py 4))
         (data (create rev 4))
   \<and> mset (map terr_owner (data (create rev 4))) = mset (cyclic_allocation 4)"
proof -
  have h1: "(1::int) \<le> 4" by simp
  have h2: "mset (rev (allocation 4)) = mset (allocation 4)" by (rule mset_rev)
  from h1 h2 create_full_allocation [of 4 rev, OF h1 h2] show ?thesis
    unfolding list_all_iff by blast
qed

text \<open>
  Claim C7. For every \<open>n_players\<close> in 1..6 and every order the shuffle leaves the
  allocation in, the territory counts of any two players of \<open>range(n_players)\<close> on the
  created board differ by at most 1, and each count is \<open>floor(42 / n_players)\<close> or
  \<open>ceil(42 / n_players)\<close>.
\<close>

theorem create_fair_distribution:
  assumes "1 \<le> n_players" and "n_players \<le> 6"
    and "mset (shuffle (allocation n_players)) = mset (allocation n_players)"
    and "p \<in> set (range_py n_players)" and "q \<in> set (range_py n_players)"
  shows "\<bar>n_territories (create shuffle n_players) p
          - n_territories (create shuffle n_players) q\<bar> \<le> 1
       \<and> (n_territories (create shuffle n_players) p = 42 div n_players
          \<or> n_territories (create shuffle n_players) p = (42 + n_players - 1) div n_players)"
proof -
  let ?c = "\<lambda>x. int (count_list (allocation n_players) x)"
  have p: "0 \<le> p" "p < n_players" and q: "0 \<le> q" "q < n_players"
    using assms(4,5) by (simp_all add: set_range_py)
  have cp: "?c p = 42 div n_players \<or> ?c p = (42 + n_players - 1) div n_players"
    using assms(1,2) p by (rule count_allocation)
  have cq: "?c q = 42 div n_players \<or> ?c q = (42 + n_players - 1) div n_players"
    using assms(1,2) q by (rule count_allocation)
  have "(42 + n_players - 1) div n_players \<le> 42 div n_players + 1"
    using assms(1) by (simp add: div_add_self2 zdiv_mono1 flip: diff_add_eq)
  moreover have "42 div n_players \<le> (42 + n_players - 1) div n_players"
    using assms(1) by (intro zdiv_mono1) simp_all
  ultimately have "\<bar>?c p - ?c q\<bar> \<le> 1"
    using cp cq by linarith
  with cp show ?thesis
    by (simp only: n_territories_create [of shuffle n_players, OF assms(3)])
qed

text \<open>Four players: player 0 holds 11 territories and player 3 holds 10.\<close>

theorem create_fair_distribution_witness:
  "(1::int) \<le> 4 \<and> (4::int) \<le> 6 \<and> mset (rev (allocation 4)) = mset (allocation 4)
   \<and> 0 \<in> set (range_py 4) \<and> 3 \<in> set (range_py 4)
   \<and> \<bar>n_territories (create rev 4) 0 - n_territories (create rev 4) 3\<bar> \<le> 1
   \<and> (n_territories (create rev 4) 0 = 42 div 4
      \<or> n_territories (create rev 4) 0 = (42 + 4 - 1) div 4)"
proof -
  have h1: "(1::int) \<le> 4" and h2: "(4::int) \<le> 6" by simp_all
  have h3: "mset (rev (allocation 4)) = mset (allocation 4)" by (rule mset_rev)
  have h4: "0 \<in> set (range_py 4)" and h5: "3 \<in> set (range_py 4)"
    by (simp_all add: set_range_py)
  from h1 h2 h3 h4 h5 create_fair_distribution [of 4 rev 0 3, OF h1 h2 h3 h4 h5] show ?thesis by blast
qed


section \<open>Lookups and mutators\<close>


lemma index_py_in_range:
  "0 \<le> i \<Longrightarrow> i < int (length xs) \<Longrightarrow> index_py xs i = Inr (nat i)"
  by (simp add: index_py_def)

lemma index_py_Inr:
  "index_py xs i = Inr j \<Longrightarrow> j < length xs \<and> (0 \<le> i \<longrightarrow> j = nat i)"
  by (auto simp: index_py_def Let_def split: if_splits)

lemma index_py_nonneg:
  "index_py xs i = Inr j \<Longrightarrow> 0 \<le> i \<Longrightarrow> j < length xs \<and> i = int j"
  by (auto simp: index_py_def Let_def split: if_splits)

lemma armies_in_range:
  "0 \<le> tid \<Longrightarrow> tid < int (length (data b)) \<Longrightarrow>
   armies b tid = Inr (terr_armies (data b ! nat tid))"
  by (simp add: armies_def getitem_def index_py_in_range)

lemma owner_in_range:
  "0 \<le> tid \<Longrightarrow> tid < int (length (data b)) \<Longrightarrow>
   owner b tid = Inr (terr_owner (data b ! nat tid))"
  by (simp add: owner_def getitem_def index_py_in_range)

lemma set_owner_in_range:
  "0 \<le> tid \<Longrightarrow> tid < int (length (data b)) \<Longrightarrow>
   set_owner b tid p =
     (Inr (), Board ((data b)[nat tid := (tid, p, terr_armies (data b ! nat tid))]))"
  by (simp add: set_owner_def armies_in_range setitem_def index_py_in_range)

lemma set_armies_in_range:
  "0 \<le> tid \<Longrightarrow> tid < int (length (data b)) \<Longrightarrow> 0 < n \<Longrightarrow>
   set_armies b tid n =
     (Inr (), Board ((data b)[nat tid := (tid, terr_owner (data b ! nat tid), n)]))"
  by (simp add: set_armies_def owner_in_range setitem_def index_py_in_range)

lemma set_owner_success:
  assumes "fst (set_owner b tid p) = Inr ()"
  shows "\<exists>j. index_py (data b) tid = Inr j
           \<and> snd (set_owner b tid p) = Board ((data b)[j := (tid, p, terr_armies (data b ! j))])"
  using assms
  by (auto simp: set_owner_def armies_def getitem_def setitem_def split: sum.splits)

lemma set_armies_success:
  assumes "fst (set_armies b tid n) = Inr ()"
  shows "0 < n \<and> (\<exists>j. index_py (data b) tid = Inr j
           \<and> snd (set_armies b tid n) = Board ((data b)[j := (tid, terr_owner (data b ! j), n)]))"
  using assms
  by (auto simp: set_armies_def owner_def getitem_def setitem_def split: sum.splits if_splits)

lemma add_armies_success:
  assumes "fst (add_armies b tid n) = Inr ()"
  shows "\<exists>j. index_py (data b) tid = Inr j \<and> 0 < terr_armies (data b ! j) + n
           \<and> snd (add_armies b tid n) =
               Board ((data b)[j := (tid, terr_owner (data b ! j), terr_armies (data b ! j) + n)])"
proof -
  from assms obtain arm where arm: "armies b tid = Inr arm"
    and ok: "fst (set_armies b tid (arm + n)) = Inr ()"
    and eq: "add_armies b tid n = set_armies b tid (arm + n)"
    by (auto simp: add_armies_def split: sum.splits)
  from set_armies_success [OF ok] obtain j where pos: "0 < arm + n"
    and j: "index_py (data b) tid = Inr j"
    and upd: "snd (set_armies b tid (arm + n)) = Board ((data b)[j := (tid, terr_owner (data b ! j), arm + n)])"
    by blast
  from arm j have "arm = terr_armies (data b ! j)"
    by (simp add: armies_def getitem_def)
  with pos j upd eq show ?thesis by simp
qed

lemma set_owner_failure_unchanged:
  "fst (set_owner b tid p) = Inr () \<or> snd (set_owner b tid p) = b"
  by (simp add: set_owner_def split: sum.split)

lemma set_armies_failure_unchanged:
  "fst (set_armies b tid n) = Inr () \<or> snd (set_armies b tid n) = b"
  by (simp add: set_armies_def split: sum.split)

lemma add_armies_failure_unchanged:
  "fst (add_armies b tid n) = Inr () \<or> snd (add_armies b tid n) = b"
proof (cases "armies b tid")
  case (Inl e)
  then show ?thesis by (simp add: add_armies_def)
next
  case (Inr arm)
  then have "add_armies b tid n = set_armies b tid (arm + n)"
    by (simp add: add_armies_def)
  then show ?thesis
    using set_armies_failure_unchanged [of b tid "arm + n"] by simp
qed

lemma armies_positive_update:
  assumes "armies_positive b" and "1 \<le> terr_armies t"
  shows "armies_positive (Board ((data b)[j := t]))"
proof -
  have "1 \<le> terr_armies x" if "x \<in> set ((data b)[j := t])" for x
  proof -
    from that have "x \<in> insert t (set (data b))"
      by (rule subsetD [OF set_update_subset_insert])
    then show ?thesis
      using assms by (auto simp: armies_positive_def list_all_iff)
  qed
  then show ?thesis
    by (simp add: armies_positive_def list_all_iff)
qed

lemma armies_positive_nth:
  "armies_positive b \<Longrightarrow> j < length (data b) \<Longrightarrow> 1 \<le> terr_armies (data b ! j)"
  by (simp add: armies_positive_def list_all_length)

lemma self_indexed_nth:
  "self_indexed b \<longleftrightarrow> (\<forall>i < length (data b). terr_id (data b ! i) = int i)"
proof
  assume "self_indexed b"
  then have eq: "map terr_id (data b) = map int [0..<length (data b)]"
    by (simp only: self_indexed_def)
  show "\<forall>i < length (data b). terr_id (data b ! i) = int i"
  proof (intro allI impI)
    fix i assume i: "i < length (data b)"
    then have "terr_id (data b ! i) = map terr_id (data b) ! i" by simp
    also have "\<dots> = map int [0..<length (data b)] ! i" by (simp only: eq)
    also have "\<dots> = int i" using i by simp
    finally show "terr_id (data b ! i) = int i" .
  qed
next
  assume h: "\<forall>i < length (data b). terr_id (data b ! i) = int i"
  have "map terr_id (data b) = map int [0..<length (data b)]"
    by (rule nth_equalityI) (simp_all add: h)
  then show "self_indexed b" by (simp only: self_indexed_def)
qed

lemma self_indexed_update:
  "self_indexed b \<Longrightarrow> j < length (data b) \<Longrightarrow> terr_id t = int j \<Longrightarrow>
   self_indexed (Board ((data b)[j := t]))"
  by (simp add: self_indexed_nth nth_list_update)

lemma self_indexed_lookup:
  assumes "self_indexed b" and "(f, fp, fa) \<in> set (data b)"
  shows "0 \<le> f \<and> f < int (length (data b)) \<and> data b ! nat f = (f, fp, fa)
       \<and> owner b f = Inr fp \<and> armies b f = Inr fa"
proof -
  from assms(2) obtain i where i: "i < length (data b)" and rec: "data b ! i = (f, fp, fa)"
    by (auto simp: in_set_conv_nth)
  from assms(1) i have "terr_id (data b ! i) = int i" by (simp add: self_indexed_nth)
  with rec have f: "f = int i" by simp
  with i rec show ?thesis by (simp add: owner_in_range armies_in_range)
qed

lemma lookup_nonneg:
  assumes "0 \<le> f"
  shows "owner b f = Inr p \<Longrightarrow> f < int (length (data b)) \<and> terr_owner (data b ! nat f) = p"
    and "armies b f = Inr fa \<Longrightarrow> f < int (length (data b)) \<and> terr_armies (data b ! nat f) = fa"
proof -
  have *: "f < int (length (data b)) \<and> j = nat f" if "index_py (data b) f = Inr j" for j
    using index_py_nonneg [OF that assms] by simp
  show "owner b f = Inr p \<Longrightarrow> f < int (length (data b)) \<and> terr_owner (data b ! nat f) = p"
    using * by (auto simp: owner_def getitem_def split: sum.splits)
  show "armies b f = Inr fa \<Longrightarrow> f < int (length (data b)) \<and> terr_armies (data b ! nat f) = fa"
    using * by (auto simp: armies_def getitem_def split: sum.splits)
qed

lemmas run_defs = set_owner_def set_armies_def add_armies_def owner_def armies_def
  getitem_def setitem_def index_py_def Let_def

text \<open>
  Claim C2. For every board and every territory id in \<open>0 .. len - 1\<close>: \<open>set_armies\<close> with
  \<open>n \<le> 0\<close> raises the assertion error and leaves the board as it was; with \<open>n > 0\<close> it
  succeeds and \<open>armies\<close> then reads \<open>n\<close>. \<open>add_armies\<close> raises the assertion error and
  leaves the board as it was when the current army count plus \<open>n\<close> is not positive, and
  otherwise succeeds and stores that sum. Whenever either call does not succeed, the board
  is unchanged.
\<close>

theorem set_armies_guard:
  assumes "0 \<le> tid" and "tid < int (length (data b))"
  shows "(n \<le> 0 \<longrightarrow> set_armies b tid n = (Inl AssertionError, b))
       \<and> (0 < n \<longrightarrow> fst (set_armies b tid n) = Inr ()
                   \<and> armies (snd (set_armies b tid n)) tid = Inr n)
       \<and> (\<exists>arm. armies b tid = Inr arm
             \<and> (arm + n \<le> 0 \<longrightarrow> add_armies b tid n = (Inl AssertionError, b))
             \<and> (0 < arm + n \<longrightarrow> fst (add_armies b tid n) = Inr ()
                   \<and> armies (snd (add_armies b tid n)) tid = Inr (arm + n)))
       \<and> (fst (set_armies b tid n) = Inr () \<or> snd (set_armies b tid n) = b)
       \<and> (fst (add_armies b tid n) = Inr () \<or> snd (add_armies b tid n) = b)"
proof -
  have store: "fst (set_armies b tid m) = Inr () \<and> armies (snd (set_armies b tid m)) tid = Inr m"
    if "0 < m" for m
    using assms that
    by (simp add: set_armies_in_range armies_in_range)
  have fail: "set_armies b tid m = (Inl AssertionError, b)" if "m \<le> 0" for m
    using that by (simp add: set_armies_def)
  let ?arm = "terr_armies (data b ! nat tid)"
  have arm: "armies b tid = Inr ?arm"
    using assms by (rule armies_in_range)
  then have add: "add_armies b tid n = set_armies b tid (?arm + n)"
    by (simp add: add_armies_def)
  have c1: "n \<le> 0 \<longrightarrow> set_armies b tid n = (Inl AssertionError, b)"
    using fail by blast
  have c2: "0 < n \<longrightarrow> fst (set_armies b tid n) = Inr ()
                   \<and> armies (snd (set_armies b tid n)) tid = Inr n"
    using store by blast
  have c3: "\<exists>arm. armies b tid = Inr arm
             \<and> (arm + n \<le> 0 \<longrightarrow> add_armies b tid n = (Inl AssertionError, b))
             \<and> (0 < arm + n \<longrightarrow> fst (add_armies b tid n) = Inr ()
                   \<and> armies (snd (add_armies b tid n)) tid = Inr (arm + n))"
    using arm fail [of "?arm + n"] store [of "?arm + n"] by (simp only: add) blast
  from c1 c2 c3 set_armies_failure_unchanged [of b tid n] add_armies_failure_unchanged [of b tid n]
  show ?thesis by blast
qed

text \<open>
  A territory with one army: removing one army fails and leaves the count at 1; setting
  or adding 2 succeeds.
\<close>

theorem set_armies_guard_witness:
  "(0::int) \<le> 0 \<and> (0::int) < int (length (data (Board [(0, 0, 1), (1, 1, 4)])))
   \<and> armies (Board [(0, 0, 1), (1, 1, 4)]) 0 = Inr 1
   \<and> set_armies (Board [(0, 0, 1), (1, 1, 4)]) 0 (- 1)
       = (Inl AssertionError, Board [(0, 0, 1), (1, 1, 4)])
   \<and> add_armies (Board [(0, 0, 1), (1, 1, 4)]) 0 (- 1)
       = (Inl AssertionError, Board [(0, 0, 1), (1, 1, 4)])
   \<and> fst (set_armies (Board [(0, 0, 1), (1, 1, 4)]) 0 2) = Inr ()
   \<and> armies (snd (set_armies (Board [(0, 0, 1), (1, 1, 4)]) 0 2)) 0 = Inr 2
   \<and> fst (add_armies (Board [(0, 0, 1), (1, 1, 4)]) 0 2) = Inr ()
   \<and> armies (snd (add_armies (Board [(0, 0, 1), (1, 1, 4)]) 0 2)) 0 = Inr 3"
proof -
  let ?b = "Board [(0, 0, 1), (1, 1, 4)]"
  have h1: "(0::int) \<le> 0" and h2: "(0::int) < int (length (data ?b))" by simp_all
  have arm: "armies ?b 0 = Inr 1" by (simp add: run_defs)
  from h1 h2 arm set_armies_guard [of 0 ?b "- 1", OF h1 h2] set_armies_guard [of 0 ?b 2, OF h1 h2]
  show ?thesis by simp
qed

text \<open>
  Claim C4. On a board where every record holds at least one army, every successful
  \<open>set_owner\<close>, \<open>set_armies\<close> and \<open>add_armies\<close> call leaves a board where every record holds
  at least one army, and \<open>Board.create\<close> yields such a board.
\<close>

theorem army_positivity:
  assumes "armies_positive b"
  shows "(fst (set_owner b tid p) = Inr () \<longrightarrow> armies_positive (snd (set_owner b tid p)))
       \<and> (fst (set_armies b tid n) = Inr () \<longrightarrow> armies_positive (snd (set_armies b tid n)))
       \<and> (fst (add_armies b tid n) = Inr () \<longrightarrow> armies_positive (snd (add_armies b tid n)))
       \<and> armies_positive (create shuffle n_players)"
proof -
  have c1: "armies_positive (snd (set_owner b tid p))" if ok: "fst (set_owner b tid p) = Inr ()"
  proof -
    from set_owner_success [OF ok] obtain j where j: "index_py (data b) tid = Inr j"
      and upd: "snd (set_owner b tid p) = Board ((data b)[j := (tid, p, terr_armies (data b ! j))])"
      by blast
    from j have "j < length (data b)" by (simp add: index_py_Inr)
    with assms have "1 \<le> terr_armies (data b ! j)" by (rule armies_positive_nth)
    then have "1 \<le> terr_armies (tid, p, terr_armies (data b ! j))" by simp
    with assms show ?thesis unfolding upd by (rule armies_positive_update)
  qed
  have c2: "armies_positive (snd (set_armies b tid n))" if ok: "fst (set_armies b tid n) = Inr ()"
  proof -
    from set_armies_success [OF ok] obtain j where pos: "0 < n"
      and upd: "snd (set_armies b tid n) = Board ((data b)[j := (tid, terr_owner (data b ! j), n)])"
      by blast
    from pos have "1 \<le> terr_armies (tid, terr_owner (data b ! j), n)" by simp
    with assms show ?thesis unfolding upd by (rule armies_positive_update)
  qed
  have c3: "armies_positive (snd (add_armies b tid n))" if ok: "fst (add_armies b tid n) = Inr ()"
  proof -
    from add_armies_success [OF ok] obtain j where pos: "0 < terr_armies (data b ! j) + n"
      and upd: "snd (add_armies b tid n) =
          Board ((data b)[j := (tid, terr_owner (data b ! j), terr_armies (data b ! j) + n)])"
      by blast
    from pos have "1 \<le> terr_armies (tid, terr_owner (data b ! j), terr_armies (data b ! j) + n)"
      by simp
    with assms show ?thesis unfolding upd by (rule armies_positive_update)
  qed
  have c4: "armies_positive (create shuffle n_players)"
    using armies_create [of _ shuffle n_players]
    by (simp add: armies_positive_def list_all_iff)
  from c1 c2 c3 c4 show ?thesis by blast
qed

text \<open>
  A board of two territories: changing the owner, setting 2 armies and removing 3 of 4
  armies all succeed and keep every count positive.
\<close>

theorem army_positivity_witness:
  "armies_positive (Board [(0, 0, 1), (1, 1, 4)])
   \<and> fst (set_owner (Board [(0, 0, 1), (1, 1, 4)]) 1 0) = Inr ()
   \<and> armies_positive (snd (set_owner (Board [(0, 0, 1), (1, 1, 4)]) 1 0))
   \<and> fst (set_armies (Board [(0, 0, 1), (1, 1, 4)]) 1 2) = Inr ()
   \<and> armies_positive (snd (set_armies (Board [(0, 0, 1), (1, 1, 4)]) 1 2))
   \<and> fst (add_armies (Board [(0, 0, 1), (1, 1, 4)]) 1 (- 3)) = Inr ()
   \<and> armies_positive (snd (add_armies (Board [(0, 0, 1), (1, 1, 4)]) 1 (- 3)))
   \<and> armies_positive (create rev 3)"
proof -
  let ?b = "Board [(0, 0, 1), (1, 1, 4)]"
  have h: "armies_positive ?b" by (simp add: armies_positive_def)
  have s1: "fst (set_owner ?b 1 0) = Inr ()"
    and s2: "fst (set_armies ?b 1 2) = Inr ()"
    and s3: "fst (add_armies ?b 1 (- 3)) = Inr ()"
    by (simp_all add: run_defs)
  from h s1 s2 s3 army_positivity [of ?b 1 0 2 rev 3, OF h]
    army_positivity [of ?b 1 0 "- 3" rev 3, OF h]
  show ?thesis by blast
qed

lemma set_owner_other_records:
  assumes inv: "self_indexed b" and tid: "0 \<le> tid" "tid < int (length (data b))"
    and mem: "(t, ow, arm) \<in> set (data b)" and ne: "t \<noteq> tid"
  shows "(t, ow, arm) \<in> set (data (snd (set_owner b tid p)))
       \<and> owner (snd (set_owner b tid p)) t = Inr ow
       \<and> armies (snd (set_owner b tid p)) t = Inr arm"
proof -
  let ?d' = "(data b)[nat tid := (tid, p, terr_armies (data b ! nat tid))]"
  have eq: "snd (set_owner b tid p) = Board ?d'"
    using tid by (simp add: set_owner_in_range)
  from self_indexed_lookup [OF inv mem] have t0: "0 \<le> t" and tlen: "t < int (length (data b))"
    and rec: "data b ! nat t = (t, ow, arm)" by blast+
  from t0 tid(1) ne have pos: "nat t \<noteq> nat tid" by simp
  from tlen t0 have len': "nat t < length ?d'" by simp
  from pos have same: "?d' ! nat t = (t, ow, arm)" by (simp add: rec)
  with len' have "(t, ow, arm) \<in> set ?d'" by (metis nth_mem)
  moreover have "owner (Board ?d') t = Inr ow"
    using t0 tlen same by (simp add: owner_in_range)
  moreover have "armies (Board ?d') t = Inr arm"
    using t0 tlen same by (simp add: armies_in_range)
  ultimately show ?thesis by (simp add: eq)
qed

text \<open>
  Claim C8 (as amended). For every board and every territory id in \<open>0 .. len - 1\<close>,
  \<open>set_owner\<close> succeeds for any player id and replaces the record at position
  \<open>territory_id\<close> by \<open>(territory_id, player_id, old armies)\<close>: \<open>armies(territory_id)\<close> reads
  what it read before, \<open>owner(territory_id)\<close> reads the new player id, the board has as
  many records as before and the record at every other position is the record that was
  there. When the record at that position carries \<open>territory_id\<close> as its id, only its
  owner field changes; and on a board where every record sits at the position of its id,
  this still holds afterwards and the record of every other territory id is kept and is
  what \<open>owner\<close> and \<open>armies\<close> read for that id.
\<close>

theorem set_owner_frame:
  assumes "0 \<le> tid" and "tid < int (length (data b))"
  shows "fst (set_owner b tid p) = Inr ()
       \<and> armies (snd (set_owner b tid p)) tid = armies b tid
       \<and> owner (snd (set_owner b tid p)) tid = Inr p
       \<and> length (data (snd (set_owner b tid p))) = length (data b)
       \<and> (\<forall>j. j \<noteq> nat tid \<longrightarrow> data (snd (set_owner b tid p)) ! j = data b ! j)
       \<and> data (snd (set_owner b tid p)) ! nat tid = (tid, p, terr_armies (data b ! nat tid))
       \<and> (terr_id (data b ! nat tid) = tid \<longrightarrow>
            data (snd (set_owner b tid p)) ! nat tid
              = (terr_id (data b ! nat tid), p, terr_armies (data b ! nat tid)))
       \<and> (self_indexed b \<longrightarrow>
            self_indexed (snd (set_owner b tid p))
            \<and> (\<forall>t ow arm. (t, ow, arm) \<in> set (data b) \<and> t \<noteq> tid \<longrightarrow>
                  (t, ow, arm) \<in> set (data (snd (set_owner b tid p)))
                  \<and> owner (snd (set_owner b tid p)) t = Inr ow
                  \<and> armies (snd (set_owner b tid p)) t = Inr arm))"
proof -
  let ?b' = "Board ((data b)[nat tid := (tid, p, terr_armies (data b ! nat tid))])"
  have eq: "set_owner b tid p = (Inr (), ?b')"
    using assms by (rule set_owner_in_range)
  have i: "nat tid < length (data b)" using assms by simp
  have c1: "fst (set_owner b tid p) = Inr ()" by (simp add: eq)
  have c2: "armies (snd (set_owner b tid p)) tid = armies b tid"
    using assms i by (simp add: eq armies_in_range)
  have c3: "owner (snd (set_owner b tid p)) tid = Inr p"
    using assms i by (simp add: eq owner_in_range)
  have c4: "length (data (snd (set_owner b tid p))) = length (data b)"
    by (simp add: eq)
  have c5: "\<forall>j. j \<noteq> nat tid \<longrightarrow> data (snd (set_owner b tid p)) ! j = data b ! j"
    by (simp add: eq)
  have c6: "data (snd (set_owner b tid p)) ! nat tid = (tid, p, terr_armies (data b ! nat tid))"
    using i by (simp add: eq)
  have c7: "terr_id (data b ! nat tid) = tid \<longrightarrow>
            data (snd (set_owner b tid p)) ! nat tid
              = (terr_id (data b ! nat tid), p, terr_armies (data b ! nat tid))"
    using c6 by simp
  have c8: "self_indexed (snd (set_owner b tid p))" if inv: "self_indexed b"
  proof -
    have "terr_id (tid, p, terr_armies (data b ! nat tid)) = int (nat tid)"
      using assms(1) by simp
    with inv i have "self_indexed ?b'" by (rule self_indexed_update)
    then show ?thesis by (simp add: eq)
  qed
  have c9: "\<forall>t ow arm. (t, ow, arm) \<in> set (data b) \<and> t \<noteq> tid \<longrightarrow>
                  (t, ow, arm) \<in> set (data (snd (set_owner b tid p)))
                  \<and> owner (snd (set_owner b tid p)) t = Inr ow
                  \<and> armies (snd (set_owner b tid p)) t = Inr arm" if inv: "self_indexed b"
    using set_owner_other_records [OF inv assms] by blast
  from c1 c2 c3 c4 c5 c6 c7 c8 c9 show ?thesis by blast
qed

text \<open>
  The hand-built board of three territories; territory 1 goes to player 7, who plays in
  no game.
\<close>

theorem set_owner_frame_witness:
  "(0::int) \<le> 1 \<and> (1::int) < int (length (data (Board [(0, 0, 3), (1, 0, 2), (2, 1, 5)])))
   \<and> set_owner (Board [(0, 0, 3), (1, 0, 2), (2, 1, 5)]) 1 7
       = (Inr (), Board [(0, 0, 3), (1, 7, 2), (2, 1, 5)])
   \<and> armies (snd (set_owner (Board [(0, 0, 3), (1, 0, 2), (2, 1, 5)]) 1 7)) 1 = Inr 2
   \<and> owner (snd (set_owner (Board [(0, 0, 3), (1, 0, 2), (2, 1, 5)]) 1 7)) 1 = Inr 7
   \<and> data (snd (set_owner (Board [(0, 0, 3), (1, 0, 2), (2, 1, 5)]) 1 7)) ! 0 = (0, 0, 3)
   \<and> data (snd (set_owner (Board [(0, 0, 3), (1, 0, 2), (2, 1, 5)]) 1 7)) ! 2 = (2, 1, 5)
   \<and> terr_id (data (Board [(0, 0, 3), (1, 0, 2), (2, 1, 5)]) ! 1) = 1
   \<and> data (snd (set_owner (Board [(0, 0, 3), (1, 0, 2), (2, 1, 5)]) 1 7)) ! 1 = (1, 7, 2)
   \<and> self_indexed (Board [(0, 0, 3), (1, 0, 2), (2, 1, 5)])
   \<and> self_indexed (snd (set_owner (Board [(0, 0, 3), (1, 0, 2), (2, 1, 5)]) 1 7))
   \<and> (2, 1, 5) \<in> set (data (snd (set_owner (Board [(0, 0, 3), (1, 0, 2), (2, 1, 5)]) 1 7)))
   \<and> owner (snd (set_owner (Board [(0, 0, 3), (1, 0, 2), (2, 1, 5)]) 1 7)) 2 = Inr 1
   \<and> armies (snd (set_owner (Board [(0, 0, 3), (1, 0, 2), (2, 1, 5)]) 1 7)) 2 = Inr 5"
proof -
  let ?b = "Board [(0, 0, 3), (1, 0, 2), (2, 1, 5)]"
  have h1: "(0::int) \<le> 1" and h2: "(1::int) < int (length (data ?b))" by simp_all
  have arm: "armies ?b 1 = Inr 2" by (simp add: run_defs)
  have run: "set_owner ?b 1 7 = (Inr (), Board [(0, 0, 3), (1, 7, 2), (2, 1, 5)])"
    by (simp add: run_defs)
  have inv: "self_indexed ?b" by (simp add: self_indexed_def upt_rec)
  have mem: "(2, 1, 5) \<in> set (data ?b) \<and> (2::int) \<noteq> 1" by simp
  note fr = set_owner_frame [of 1 ?b 7, OF h1 h2]
  from fr have c1: "armies (snd (set_owner ?b 1 7)) 1 = armies ?b 1"
    and c2: "owner (snd (set_owner ?b 1 7)) 1 = Inr 7" by blast+
  from fr inv have c3: "self_indexed (snd (set_owner ?b 1 7))" by blast
  from fr inv mem have c4: "(2, 1, 5) \<in> set (data (snd (set_owner ?b 1 7)))
      \<and> owner (snd (set_owner ?b 1 7)) 2 = Inr 1 \<and> armies (snd (set_owner ?b 1 7)) 2 = Inr 5"
    by blast
  have pos: "data (snd (set_owner ?b 1 7)) ! 0 = (0, 0, 3)"
    "data (snd (set_owner ?b 1 7)) ! 2 = (2, 1, 5)"
    "terr_id (data ?b ! 1) = 1"
    "data (snd (set_owner ?b 1 7)) ! 1 = (1, 7, 2)"
    by (simp_all add: run)
  from h1 h2 run c1 c2 c3 c4 pos inv arm show ?thesis by simp
qed

text \<open>
  Claim C8 as stated fails on a board whose records are not stored in the order of their
  ids: on the board \<open>[(1, 0, 3), (0, 1, 2)]\<close>, \<open>set_owner(0, 4)\<close> stores \<open>(0, 4, 3)\<close> at
  position 0, so the id field of the record there changes from 1 to 0 and the record of
  territory 1 is gone.
\<close>

theorem set_owner_id_counterexample:
  "(0::int) \<le> 0 \<and> (0::int) < int (length (data (Board [(1, 0, 3), (0, 1, 2)])))
   \<and> set_owner (Board [(1, 0, 3), (0, 1, 2)]) 0 4 = (Inr (), Board [(0, 4, 3), (0, 1, 2)])
   \<and> data (Board [(1, 0, 3), (0, 1, 2)]) ! 0 = (1, 0, 3)
   \<and> data (snd (set_owner (Board [(1, 0, 3), (0, 1, 2)]) 0 4)) ! 0 = (0, 4, 3)
   \<and> terr_id (data (snd (set_owner (Board [(1, 0, 3), (0, 1, 2)]) 0 4)) ! 0)
       \<noteq> terr_id (data (Board [(1, 0, 3), (0, 1, 2)]) ! 0)
   \<and> (1, 0, 3) \<notin> set (data (snd (set_owner (Board [(1, 0, 3), (0, 1, 2)]) 0 4)))"
  by (simp add: run_defs)

text \<open>
  Claim C10 (as amended). \<open>Board.create\<close> yields a board in which the record at every
  position \<open>i\<close> carries \<open>i\<close> as its territory id; every successful \<open>set_owner\<close>,
  \<open>set_armies\<close> and \<open>add_armies\<close> call with a territory id that is not negative keeps this
  agreement; and on a board with this agreement \<open>owner\<close> and \<open>armies\<close> read, for the id of
  any record, the owner and the armies stored in that record.
\<close>

theorem self_indexing_invariant:
  "self_indexed (create shuffle n_players)
   \<and> (self_indexed b \<and> 0 \<le> tid \<longrightarrow>
        (fst (set_owner b tid p) = Inr () \<longrightarrow> self_indexed (snd (set_owner b tid p)))
      \<and> (fst (set_armies b tid n) = Inr () \<longrightarrow> self_indexed (snd (set_armies b tid n)))
      \<and> (fst (add_armies b tid n) = Inr () \<longrightarrow> self_indexed (snd (add_armies b tid n))))
   \<and> (self_indexed b \<and> (tid, p, arm) \<in> set (data b) \<longrightarrow>
        owner b tid = Inr p \<and> armies b tid = Inr arm)"
proof -
  have c0: "self_indexed (create shuffle n_players)"
    by (simp add: self_indexed_def ids_create length_data_create)
  have c1: "self_indexed (snd (set_owner b tid p))"
    if inv: "self_indexed b" and tid: "0 \<le> tid" and ok: "fst (set_owner b tid p) = Inr ()"
  proof -
    from set_owner_success [OF ok] obtain j where j: "index_py (data b) tid = Inr j"
      and upd: "snd (set_owner b tid p) = Board ((data b)[j := (tid, p, terr_armies (data b ! j))])"
      by blast
    from index_py_nonneg [OF j tid] have "j < length (data b)" and "tid = int j" by simp_all
    then show ?thesis unfolding upd using inv by (intro self_indexed_update) simp_all
  qed
  have c2: "self_indexed (snd (set_armies b tid n))"
    if inv: "self_indexed b" and tid: "0 \<le> tid" and ok: "fst (set_armies b tid n) = Inr ()"
  proof -
    from set_armies_success [OF ok] obtain j where j: "index_py (data b) tid = Inr j"
      and upd: "snd (set_armies b tid n) = Board ((data b)[j := (tid, terr_owner (data b ! j), n)])"
      by blast
    from index_py_nonneg [OF j tid] have "j < length (data b)" and "tid = int j" by simp_all
    then show ?thesis unfolding upd using inv by (intro self_indexed_update) simp_all
  qed
  have c3: "self_indexed (snd (add_armies b tid n))"
    if inv: "self_indexed b" and tid: "0 \<le> tid" and ok: "fst (add_armies b tid n) = Inr ()"
  proof -
    from add_armies_success [OF ok] obtain j where j: "index_py (data b) tid = Inr j"
      and upd: "snd (add_armies b tid n) =
          Board ((data b)[j := (tid, terr_owner (data b ! j), terr_armies (data b ! j) + n)])"
      by blast
    from index_py_nonneg [OF j tid] have "j < length (data b)" and "tid = int j" by simp_all
    then show ?thesis unfolding upd using inv by (intro self_indexed_update) simp_all
  qed
  have c4: "owner b tid = Inr p \<and> armies b tid = Inr arm"
    if inv: "self_indexed b" and mem: "(tid, p, arm) \<in> set (data b)"
  proof -
    from mem obtain i where i: "i < length (data b)" and rec: "data b ! i = (tid, p, arm)"
      by (auto simp: in_set_conv_nth)
    from inv i have "terr_id (data b ! i) = int i" by (simp add: self_indexed_nth)
    with rec have tid: "tid = int i" by simp
    with i rec show ?thesis by (simp add: owner_in_range armies_in_range)
  qed
  from c0 c1 c2 c3 c4 show ?thesis by blast
qed

text \<open>
  A created board, and the hand-built board of three territories under the three
  mutators.
\<close>

theorem self_indexing_invariant_witness:
  "self_indexed (create rev 3)
   \<and> self_indexed (Board [(0, 0, 3), (1, 0, 2), (2, 1, 5)])
   \<and> fst (set_owner (Board [(0, 0, 3), (1, 0, 2), (2, 1, 5)]) 2 0) = Inr ()
   \<and> self_indexed (snd (set_owner (Board [(0, 0, 3), (1, 0, 2), (2, 1, 5)]) 2 0))
   \<and> fst (set_armies (Board [(0, 0, 3), (1, 0, 2), (2, 1, 5)]) 2 4) = Inr ()
   \<and> self_indexed (snd (set_armies (Board [(0, 0, 3), (1, 0, 2), (2, 1, 5)]) 2 4))
   \<and> fst (add_armies (Board [(0, 0, 3), (1, 0, 2), (2, 1, 5)]) 2 4) = Inr ()
   \<and> self_indexed (snd (add_armies (Board [(0, 0, 3), (1, 0, 2), (2, 1, 5)]) 2 4))
   \<and> owner (Board [(0, 0, 3), (1, 0, 2), (2, 1, 5)]) 2 = Inr 1
   \<and> armies (Board [(0, 0, 3), (1, 0, 2), (2, 1, 5)]) 2 = Inr 5"
proof -
  let ?b = "Board [(0, 0, 3), (1, 0, 2), (2, 1, 5)]"
  have h: "self_indexed ?b" by (simp add: self_indexed_def upt_rec)
  have s1: "fst (set_owner ?b 2 0) = Inr ()"
    and s2: "fst (set_armies ?b 2 4) = Inr ()"
    and s3: "fst (add_armies ?b 2 4) = Inr ()"
    by (simp_all add: run_defs)
  have m: "(2, 1, 5) \<in> set (data ?b)" by simp
  from h s1 s2 s3 m self_indexing_invariant [of rev 3 ?b 2 0 4 5]
    self_indexing_invariant [of rev 3 ?b 2 1 4 5]
  show ?thesis by simp
qed

text \<open>
  Claim C10 as stated fails for a negative territory id: on the board created for one
  player, \<open>set_owner(-1, 0)\<close> succeeds (Python reads and stores position 41) and stores
  the record \<open>(-1, 0, 1)\<close> at position 41, whose id is not its position.
\<close>

theorem self_indexing_negative_counterexample:
  "self_indexed (create (\<lambda>xs. xs) 1)
   \<and> fst (set_owner (create (\<lambda>xs. xs) 1) (- 1) 0) = Inr ()
   \<and> data (snd (set_owner (create (\<lambda>xs. xs) 1) (- 1) 0)) ! 41 = (- 1, 0, 1)
   \<and> \<not> self_indexed (snd (set_owner (create (\<lambda>xs. xs) 1) (- 1) 0))"
  by code_simp

section \<open>Class Player\<close>


text \<open>
  Claim C9. Constructing a player with a pid in \<open>0 .. 5\<close> succeeds, and with a pid outside
  it raises the assertion error, whatever the name.
\<close>

theorem player_pid_range:
  "(0 \<le> p \<and> p \<le> 5 \<longrightarrow> player_init p nm = Inr (Player p nm))
   \<and> (p < 0 \<or> 5 < p \<longrightarrow> player_init p nm = Inl AssertionError)"
proof -
  have "p \<in> set (range_py 6) \<longleftrightarrow> 0 \<le> p \<and> p \<le> 5"
    by (auto simp: set_range_py)
  then show ?thesis by (auto simp: player_init_def)
qed

text \<open>
  Pids 3 and 0 are accepted, pids 6 and -1 are rejected.
\<close>

theorem player_pid_range_witness:
  "player_init 3 ''red'' = Inr (Player 3 ''red'')
   \<and> player_init 0 [] = Inr (Player 0 [])
   \<and> player_init 6 ''red'' = Inl AssertionError
   \<and> player_init (- 1) ''red'' = Inl AssertionError"
  using player_pid_range [of 3 "''red''"] player_pid_range [of 0 "[]"]
    player_pid_range [of 6 "''red''"] player_pid_range [of "- 1" "''red''"]
  by simp

section \<open>Continents and reinforcements\<close>


lemma filter_res_total:
  "(\<And>x. x \<in> set xs \<Longrightarrow> c x = Inr (P x)) \<Longrightarrow> filter_res c xs = Inr (filter P xs)"
  by (induction xs) simp_all

lemma continent_defined:
  assumes "continent_territories defs cid = Some members"
  shows "continent defs b cid = Inr (filter (\<lambda>t. terr_id t \<in> set members) (data b))"
  unfolding continent_def using assms by (intro filter_res_total) simp

lemma single_value_iff:
  "(length (remdups xs) = 1 \<and> hd (remdups xs) = p) \<longleftrightarrow> set xs = {p}"
proof
  assume h: "length (remdups xs) = 1 \<and> hd (remdups xs) = p"
  then obtain y where y: "remdups xs = [y]"
    by (cases "remdups xs") simp_all
  with h have "y = p" by simp
  with y have "set (remdups xs) = {p}" by simp
  then show "set xs = {p}" by simp
next
  assume s: "set xs = {p}"
  then have "card (set xs) = 1" by simp
  then have len: "length (remdups xs) = 1" by (simp add: length_remdups_card_conv)
  then obtain y where y: "remdups xs = [y]"
    by (cases "remdups xs") simp_all
  then have "set (remdups xs) = {y}" by simp
  with s have "y = p" by simp
  with y len show "length (remdups xs) = 1 \<and> hd (remdups xs) = p" by simp
qed

lemma continent_owner_defined:
  assumes "continent_territories defs cid = Some members"
  shows "continent_owner defs b cid =
           Inr (if length (remdups (map terr_owner (filter (\<lambda>t. terr_id t \<in> set members) (data b)))) = 1
                then Some (hd (remdups (map terr_owner (filter (\<lambda>t. terr_id t \<in> set members) (data b)))))
                else None)"
  by (simp add: continent_owner_def continent_defined [OF assms] Let_def)

lemma continent_owner_Some_iff:
  assumes "continent_territories defs cid = Some members"
  shows "continent_owner defs b cid = Inr (Some p)
         \<longleftrightarrow> terr_owner ` {t \<in> set (data b). terr_id t \<in> set members} = {p}"
proof -
  let ?os = "map terr_owner (filter (\<lambda>t. terr_id t \<in> set members) (data b))"
  have "continent_owner defs b cid = Inr (Some p)
        \<longleftrightarrow> length (remdups ?os) = 1 \<and> hd (remdups ?os) = p"
    by (simp add: continent_owner_defined [OF assms])
  also have "\<dots> \<longleftrightarrow> set ?os = {p}" by (rule single_value_iff)
  also have "set ?os = terr_owner ` {t \<in> set (data b). terr_id t \<in> set members}"
    by simp
  finally show ?thesis .
qed

lemma continent_owner_result:
  assumes "continent_territories defs cid = Some members"
  shows "continent_owner defs b cid = Inr None \<or> (\<exists>p. continent_owner defs b cid = Inr (Some p))"
  by (simp add: continent_owner_defined [OF assms])

text \<open>
  Claim C5. For every continent id with a non-empty member list and every board that holds
  a record for each member: \<open>continent_owner\<close> returns player \<open>p\<close> exactly when every record
  of the board whose id is a member has owner \<open>p\<close>; it returns \<open>None\<close> exactly when no
  player owns all of them; and it returns some player exactly when the set of the distinct
  owners of these records has size 1.
\<close>

theorem continent_owner_unique:
  assumes "continent_territories defs cid = Some members"
    and "members \<noteq> []"
    and "set members \<subseteq> terr_id ` set (data b)"
  shows "(continent_owner defs b cid = Inr (Some p)
            \<longleftrightarrow> (\<forall>t \<in> set (data b). terr_id t \<in> set members \<longrightarrow> terr_owner t = p))
       \<and> (continent_owner defs b cid = Inr None
            \<longleftrightarrow> \<not> (\<exists>q. \<forall>t \<in> set (data b). terr_id t \<in> set members \<longrightarrow> terr_owner t = q))
       \<and> ((\<exists>q. continent_owner defs b cid = Inr (Some q))
            \<longleftrightarrow> card (terr_owner ` {t \<in> set (data b). terr_id t \<in> set members}) = 1)"
proof -
  let ?C = "{t \<in> set (data b). terr_id t \<in> set members}"
  from assms(2) obtain m where "m \<in> set members" by (cases members) auto
  with assms(3) obtain t0 where t0: "t0 \<in> ?C" by auto
  have all_iff: "terr_owner ` ?C = {q} \<longleftrightarrow> (\<forall>t \<in> set (data b). terr_id t \<in> set members \<longrightarrow> terr_owner t = q)"
    for q
    using t0 by auto
  have some: "continent_owner defs b cid = Inr (Some q)
        \<longleftrightarrow> (\<forall>t \<in> set (data b). terr_id t \<in> set members \<longrightarrow> terr_owner t = q)" for q
    using continent_owner_Some_iff [OF assms(1), of b q] all_iff [of q] by simp
  have none: "continent_owner defs b cid = Inr None
        \<longleftrightarrow> \<not> (\<exists>q. continent_owner defs b cid = Inr (Some q))"
    using continent_owner_result [OF assms(1), of b] by auto
  have "(\<exists>q. continent_owner defs b cid = Inr (Some q)) \<longleftrightarrow> (\<exists>q. terr_owner ` ?C = {q})"
    using continent_owner_Some_iff [OF assms(1), of b] by simp
  also have "\<dots> \<longleftrightarrow> card (terr_owner ` ?C) = 1"
    by (simp add: card_1_singleton_iff)
  finally have card: "(\<exists>q. continent_owner defs b cid = Inr (Some q)) \<longleftrightarrow> card (terr_owner ` ?C) = 1" .
  have c2: "continent_owner defs b cid = Inr None
        \<longleftrightarrow> \<not> (\<exists>q. \<forall>t \<in> set (data b). terr_id t \<in> set members \<longrightarrow> terr_owner t = q)"
    by (simp only: none some)
  from some [of p] c2 card show ?thesis by (intro conjI)
qed

text \<open>
  The continent \<open>{0, 1, 2}\<close>: owned by player 0 when all three records are player 0's,
  and without owner once territory 2 belongs to player 1.
\<close>

theorem continent_owner_unique_witness:
  "continent_territories
      \<lparr>territory_neighbors = Map.empty, continent_territories = [0 \<mapsto> [0, 1, 2]],
       continent_bonuses = [(0, 5)]\<rparr> 0 = Some [0, 1, 2]
   \<and> [0, 1, 2] \<noteq> ([] :: int list)
   \<and> set [0, 1, 2] \<subseteq> terr_id ` set (data (Board [(0, 0, 3), (1, 0, 2), (2, 0, 5)]))
   \<and> set [0, 1, 2] \<subseteq> terr_id ` set (data (Board [(0, 0, 3), (1, 0, 2), (2, 1, 5)]))
   \<and> continent_owner
        \<lparr>territory_neighbors = Map.empty, continent_territories = [0 \<mapsto> [0, 1, 2]],
         continent_bonuses = [(0, 5)]\<rparr>
        (Board [(0, 0, 3), (1, 0, 2), (2, 0, 5)]) 0 = Inr (Some 0)
   \<and> continent_owner
        \<lparr>territory_neighbors = Map.empty, continent_territories = [0 \<mapsto> [0, 1, 2]],
         continent_bonuses = [(0, 5)]\<rparr>
        (Board [(0, 0, 3), (1, 0, 2), (2, 1, 5)]) 0 = Inr None"
proof -
  let ?d = "\<lparr>territory_neighbors = Map.empty, continent_territories = [0 \<mapsto> [0, 1, 2]],
             continent_bonuses = [(0, 5)]\<rparr>"
  let ?b1 = "Board [(0, 0, 3), (1, 0, 2), (2, 0, 5)]"
  let ?b2 = "Board [(0, 0, 3), (1, 0, 2), (2, 1, 5)]"
  have h1: "continent_territories ?d 0 = Some [0, 1, 2]" by simp
  have h2: "[0, 1, 2] \<noteq> ([] :: int list)" by simp
  have h3: "set [0, 1, 2] \<subseteq> terr_id ` set (data ?b1)" by simp
  have h4: "set [0, 1, 2] \<subseteq> terr_id ` set (data ?b2)" by simp
  have r1: "continent_owner ?d ?b1 0 = Inr (Some 0)"
    using continent_owner_unique [of ?d 0 "[0, 1, 2]" ?b1 0, OF h1 h2 h3] by simp
  have r2: "continent_owner ?d ?b2 0 = Inr None"
    using continent_owner_unique [of ?d 0 "[0, 1, 2]" ?b2 0, OF h1 h2 h4] by simp
  from h1 h2 h3 h4 r1 r2 show ?thesis by (intro conjI)
qed

lemma bonus_loop_sum:
  assumes "\<And>c bo. (c, bo) \<in> set items \<Longrightarrow> \<exists>ow. continent_owner defs b c = Inr ow"
  shows "bonus_loop defs b p items acc =
           Inr (acc + sum_list (map snd
                  (filter (\<lambda>(c, bo). continent_owner defs b c = Inr (Some p)) items)))"
  using assms
proof (induction items arbitrary: acc)
  case Nil
  then show ?case by simp
next
  case (Cons it items)
  obtain c bo where it: "it = (c, bo)" by (cases it)
  from Cons.prems [of c bo] it obtain ow where ow: "continent_owner defs b c = Inr ow" by auto
  have rest: "\<exists>ow. continent_owner defs b c' = Inr ow" if "(c', bo') \<in> set items" for c' bo'
    using Cons.prems [of c' bo'] that by simp
  have "bonus_loop defs b p items acc' =
          Inr (acc' + sum_list (map snd
                 (filter (\<lambda>(c, bo). continent_owner defs b c = Inr (Some p)) items)))" for acc'
    by (rule Cons.IH) (rule rest)
  then show ?case by (simp add: it ow)
qed

text \<open>
  Claim C3. For every board and player, when every continent of the bonus table has a
  member list, \<open>reinforcements\<close> returns \<open>max(3, floor(n_territories / 3))\<close> plus the sum of
  the bonuses of the continents whose \<open>continent_owner\<close> is the player. In particular 5
  territories and no continent give 3, 12 territories and no continent give 4, and 12
  territories with one owned continent of bonus 5 give 9.
\<close>

theorem reinforcements_formula:
  assumes "\<forall>(cid, bonus) \<in> set (continent_bonuses defs). continent_territories defs cid \<noteq> None"
  shows "reinforcements defs b p =
           Inr (max 3 (n_territories b p div 3) + sum_list (map snd (owned_bonuses defs b p)))
       \<and> (n_territories b p = 5 \<and> owned_bonuses defs b p = []
            \<longrightarrow> reinforcements defs b p = Inr 3)
       \<and> (n_territories b p = 12 \<and> owned_bonuses defs b p = []
            \<longrightarrow> reinforcements defs b p = Inr 4)
       \<and> (n_territories b p = 12 \<and> (\<exists>c. owned_bonuses defs b p = [(c, 5)])
            \<longrightarrow> reinforcements defs b p = Inr 9)"
proof -
  have "\<exists>ow. continent_owner defs b c = Inr ow" if "(c, bo) \<in> set (continent_bonuses defs)" for c bo
  proof -
    from assms that obtain members where "continent_territories defs c = Some members" by auto
    then show ?thesis using continent_owner_result [of defs c members b] by auto
  qed
  then have "bonus_loop defs b p (continent_bonuses defs) 0 =
      Inr (0 + sum_list (map snd (owned_bonuses defs b p)))"
    unfolding owned_bonuses_def by (rule bonus_loop_sum)
  then have main: "reinforcements defs b p =
      Inr (max 3 (n_territories b p div 3) + sum_list (map snd (owned_bonuses defs b p)))"
    by (simp add: reinforcements_def)
  then show ?thesis by auto
qed

text \<open>
  Thirteen territories: player 0 holds twelve of them and the continent \<open>{0, 1, 2}\<close> of
  bonus 5, and gets 9; player 1 holds one territory and no continent, and gets 3.
\<close>

theorem reinforcements_formula_witness:
  "list_all
     (\<lambda>(cid, bonus).
        continent_territories
          \<lparr>territory_neighbors = Map.empty,
           continent_territories = [0 \<mapsto> [0, 1, 2], 1 \<mapsto> [11, 12]],
           continent_bonuses = [(0, 5), (1, 2)]\<rparr> cid \<noteq> None)
     (continent_bonuses
        \<lparr>territory_neighbors = Map.empty,
         continent_territories = [0 \<mapsto> [0, 1, 2], 1 \<mapsto> [11, 12]],
         continent_bonuses = [(0, 5), (1, 2)]\<rparr>)
   \<and> n_territories
        (Board [(0, 0, 1), (1, 0, 1), (2, 0, 1), (3, 0, 1), (4, 0, 1), (5, 0, 1), (6, 0, 1),
                (7, 0, 1), (8, 0, 1), (9, 0, 1), (10, 0, 1), (11, 0, 1), (12, 1, 1)]) 0 = 12
   \<and> reinforcements
        \<lparr>territory_neighbors = Map.empty,
         continent_territories = [0 \<mapsto> [0, 1, 2], 1 \<mapsto> [11, 12]],
         continent_bonuses = [(0, 5), (1, 2)]\<rparr>
        (Board [(0, 0, 1), (1, 0, 1), (2, 0, 1), (3, 0, 1), (4, 0, 1), (5, 0, 1), (6, 0, 1),
                (7, 0, 1), (8, 0, 1), (9, 0, 1), (10, 0, 1), (11, 0, 1), (12, 1, 1)]) 0 = Inr 9
   \<and> reinforcements
        \<lparr>territory_neighbors = Map.empty,
         continent_territories = [0 \<mapsto> [0, 1, 2], 1 \<mapsto> [11, 12]],
         continent_bonuses = [(0, 5), (1, 2)]\<rparr>
        (Board [(0, 0, 1), (1, 0, 1), (2, 0, 1), (3, 0, 1), (4, 0, 1), (5, 0, 1), (6, 0, 1),
                (7, 0, 1), (8, 0, 1), (9, 0, 1), (10, 0, 1), (11, 0, 1), (12, 1, 1)]) 1 = Inr 3"
proof -
  let ?d = "\<lparr>territory_neighbors = Map.empty,
             continent_territories = [0 \<mapsto> [0, 1, 2], 1 \<mapsto> [11, 12]],
             continent_bonuses = [(0, 5), (1, 2)]\<rparr>"
  let ?b = "Board [(0, 0, 1), (1, 0, 1), (2, 0, 1), (3, 0, 1), (4, 0, 1), (5, 0, 1), (6, 0, 1),
                   (7, 0, 1), (8, 0, 1), (9, 0, 1), (10, 0, 1), (11, 0, 1), (12, 1, 1)]"
  have h: "\<forall>(cid, bonus) \<in> set (continent_bonuses ?d). continent_territories ?d cid \<noteq> None"
    by simp
  have la: "list_all (\<lambda>(cid, bonus). continent_territories ?d cid \<noteq> None)
              (continent_bonuses ?d)"
    by simp
  have o0: "continent_owner ?d ?b 0 = Inr (Some 0)"
    and o1: "continent_owner ?d ?b 1 = Inr None"
    by (simp_all add: continent_owner_def continent_def)
  have n0: "n_territories ?b 0 = 12" and n1: "n_territories ?b 1 = 1"
    by (simp_all add: n_territories_def)
  have b0: "owned_bonuses ?d ?b 0 = [(0, 5)]" and b1: "owned_bonuses ?d ?b 1 = []"
    by (simp_all add: owned_bonuses_def o0 o1)
  have r0: "reinforcements ?d ?b 0 = Inr 9"
    using reinforcements_formula [of ?d ?b 0, OF h] by (simp add: n0 b0)
  have r1: "reinforcements ?d ?b 1 = Inr 3"
    using reinforcements_formula [of ?d ?b 1, OF h] by (simp add: n1 b1)
  from la n0 r0 r1 show ?thesis by (intro conjI)
qed

section \<open>Attack enumeration\<close>


lemma hostile_neighbors_defined:
  assumes "self_indexed b" and "(f, fp, fa) \<in> set (data b)"
    and "territory_neighbors defs f = Some ns"
  shows "hostile_neighbors defs b f =
           Inr (filter (\<lambda>t. terr_owner t \<noteq> fp \<and> terr_id t \<in> set ns) (data b))"
  using self_indexed_lookup [OF assms(1,2)] assms(3)
  by (simp add: hostile_neighbors_def)

lemma attacks_from_concat:
  assumes "self_indexed b"
    and "\<And>t. t \<in> set ts \<Longrightarrow> t \<in> set (data b) \<and> territory_neighbors defs (terr_id t) \<noteq> None"
  shows "attacks_from defs b ts = Inr (concat (map (attacks_of defs b) ts))"
  using assms(2)
proof (induction ts)
  case Nil
  then show ?case by simp
next
  case (Cons fr ts)
  obtain f fp fa where fr: "fr = (f, fp, fa)" by (cases fr)
  from Cons.prems [of fr] fr obtain ns where mem: "(f, fp, fa) \<in> set (data b)"
    and ns: "territory_neighbors defs f = Some ns" by auto
  have h: "hostile_neighbors defs b f =
      Inr (filter (\<lambda>t. terr_owner t \<noteq> fp \<and> terr_id t \<in> set ns) (data b))"
    using assms(1) mem ns by (rule hostile_neighbors_defined)
  have rest: "t \<in> set (data b) \<and> territory_neighbors defs (terr_id t) \<noteq> None"
    if "t \<in> set ts" for t
    using Cons.prems [of t] that by simp
  have ih: "attacks_from defs b ts = Inr (concat (map (attacks_of defs b) ts))"
    by (rule Cons.IH) (rule rest)
  have one: "attacks_of defs b fr =
      map (\<lambda>(to_tid, to_pid, to_arm). (f, fa, to_tid, to_pid, to_arm))
        (filter (\<lambda>t. terr_owner t \<noteq> fp \<and> terr_id t \<in> set ns) (data b))"
    by (simp add: attacks_of_def fr ns)
  have "attacks_from defs b ((f, fp, fa) # ts) =
      Inr (attacks_of defs b fr @ concat (map (attacks_of defs b) ts))"
    by (simp add: h ih one)
  then show ?case by (simp add: fr)
qed

lemma filter_unique_key:
  "distinct (map k xs) \<Longrightarrow> i < length xs \<Longrightarrow> filter (\<lambda>t. k t = k (xs ! i)) xs = [xs ! i]"
proof (induction xs arbitrary: i)
  case Nil
  then show ?case by simp
next
  case (Cons x xs)
  show ?case
  proof (cases i)
    case 0
    from Cons.prems(1) have "k x \<notin> k ` set xs" by simp
    then have "k t \<noteq> k x" if "t \<in> set xs" for t
      using that by (metis imageI)
    then have "filter (\<lambda>t. k t = k x) xs = []" by (simp add: filter_empty_conv)
    with 0 show ?thesis by simp
  next
    case (Suc j)
    with Cons.prems have j: "j < length xs" and d: "distinct (map k xs)" by simp_all
    then have "xs ! j \<in> set xs" by simp
    with Cons.prems(1) have "k x \<noteq> k (xs ! j)" by auto
    with Suc Cons.IH [OF d j] show ?thesis by simp
  qed
qed

lemma self_indexed_distinct: "self_indexed b \<Longrightarrow> distinct (map terr_id (data b))"
  by (simp add: self_indexed_def distinct_map)

lemma filter_by_id:
  assumes "self_indexed b" and "0 \<le> f" and "f < int (length (data b))"
  shows "filter (\<lambda>t. terr_id t = f) (data b) = [data b ! nat f]"
proof -
  have i: "nat f < length (data b)" using assms(2,3) by simp
  with assms(1) have "terr_id (data b ! nat f) = int (nat f)" by (simp add: self_indexed_nth)
  with assms(2) have id: "terr_id (data b ! nat f) = f" by simp
  from filter_unique_key [OF self_indexed_distinct [OF assms(1)] i]
  show ?thesis by (simp only: id)
qed

lemma filter_from_concat:
  "filter (\<lambda>a. fst a = f) (concat (map (attacks_of defs b) ts))
   = concat (map (attacks_of defs b) (filter (\<lambda>t. terr_id t = f) ts))"
proof (induction ts)
  case Nil
  then show ?case by simp
next
  case (Cons fr ts)
  have "filter (\<lambda>a. fst a = f) (attacks_of defs b fr)
        = (if terr_id fr = f then attacks_of defs b fr else [])"
    by (auto simp: attacks_of_def filter_map comp_def split_def filter_empty_conv)
  with Cons.IH show ?case by simp
qed

lemma in_attacks_of:
  "a \<in> set (attacks_of defs b (f, fp, fa)) \<longleftrightarrow>
     (\<exists>t tp ta. a = (f, fa, t, tp, ta) \<and> (t, tp, ta) \<in> set (data b) \<and> tp \<noteq> fp
        \<and> (\<exists>ns. territory_neighbors defs f = Some ns \<and> t \<in> set ns))"
  by (cases "territory_neighbors defs f") (auto simp: attacks_of_def)

lemma offensive_iff:
  "(f, fp, fa) \<in> set (offensive b p) \<longleftrightarrow> (f, fp, fa) \<in> set (data b) \<and> fp = p \<and> 1 < fa"
  by (simp add: offensive_def)

lemma possible_attacks_run:
  assumes "self_indexed b"
    and "\<forall>t \<in> set (data b). territory_neighbors defs (terr_id t) \<noteq> None"
  shows "possible_attacks defs b p = Inr (concat (map (attacks_of defs b) (offensive b p)))"
proof -
  have "attacks_from defs b (offensive b p) = Inr (concat (map (attacks_of defs b) (offensive b p)))"
  proof (rule attacks_from_concat [OF assms(1)])
    fix t assume "t \<in> set (offensive b p)"
    then have "t \<in> set (data b)" by (simp add: offensive_def)
    with assms(2) show "t \<in> set (data b) \<and> territory_neighbors defs (terr_id t) \<noteq> None"
      by simp
  qed
  then show ?thesis
    by (simp add: possible_attacks_def)
qed

lemma attacks_mem:
  "a \<in> set (concat (map (attacks_of defs b) (offensive b p))) \<longleftrightarrow> a \<in> attack_set defs b p"
proof
  assume "a \<in> set (concat (map (attacks_of defs b) (offensive b p)))"
  then obtain fr where fr: "fr \<in> set (offensive b p)" and a: "a \<in> set (attacks_of defs b fr)"
    by (simp only: set_concat set_map) blast
  obtain f fp fa where eq: "fr = (f, fp, fa)" by (cases fr)
  from fr eq have "(f, fp, fa) \<in> set (offensive b p)" by simp
  then have "(f, fp, fa) \<in> set (data b) \<and> fp = p \<and> 1 < fa" by (rule iffD1 [OF offensive_iff])
  then have m: "(f, fp, fa) \<in> set (data b)" and e: "fp = p" and g: "1 < fa"
    by blast+
  from a eq have "a \<in> set (attacks_of defs b (f, fp, fa))" by simp
  then obtain t tp ta ns where a': "a = (f, fa, t, tp, ta)"
    and to: "(t, tp, ta) \<in> set (data b)" "tp \<noteq> fp"
    and ns: "territory_neighbors defs f = Some ns" "t \<in> set ns"
    unfolding in_attacks_of by blast
  from m e g to ns have "(f, fa, t, tp, ta) \<in> attack_set defs b p"
    unfolding attack_set_def by blast
  then show "a \<in> attack_set defs b p" by (simp only: a')
next
  assume "a \<in> attack_set defs b p"
  then obtain f fa t tp ta ns where a: "a = (f, fa, t, tp, ta)"
    and fr: "(f, p, fa) \<in> set (data b)" "1 < fa"
    and to: "(t, tp, ta) \<in> set (data b)" "tp \<noteq> p"
    and ns: "territory_neighbors defs f = Some ns" "t \<in> set ns"
    unfolding attack_set_def by blast
  from fr have off: "(f, p, fa) \<in> set (offensive b p)"
    by (intro iffD2 [OF offensive_iff]) simp
  from to ns have "(f, fa, t, tp, ta) \<in> set (attacks_of defs b (f, p, fa))"
    unfolding in_attacks_of by blast
  with off have "(f, fa, t, tp, ta) \<in> (\<Union>fr \<in> set (offensive b p). set (attacks_of defs b fr))"
    by (rule UN_I)
  then show "a \<in> set (concat (map (attacks_of defs b) (offensive b p)))"
    by (simp only: a set_concat set_map image_image) 
qed

lemma one_army_never_attacks:
  assumes "self_indexed b" and "armies b f = Inr 1"
    and "a \<in> set (concat (map (attacks_of defs b) (offensive b p)))"
  shows "fst a \<noteq> f"
proof
  assume f: "fst a = f"
  from assms(3) have "a \<in> attack_set defs b p" by (simp only: attacks_mem)
  then obtain f' fa t tp ta where a: "a = (f', fa, t, tp, ta)"
    and rec: "(f', p, fa) \<in> set (data b)" and big: "1 < fa"
    unfolding attack_set_def by blast
  from a f have "f' = f" by simp
  with rec have "(f, p, fa) \<in> set (data b)" by simp
  from self_indexed_lookup [OF assms(1) this] have "armies b f = Inr fa" by blast
  with assms(2) big show False by simp
qed

lemma offensive_by_id:
  assumes "self_indexed b" and "0 \<le> f" and "f < int (length (data b))"
    and "terr_owner (data b ! nat f) = p" and "1 < terr_armies (data b ! nat f)"
  shows "filter (\<lambda>t. terr_id t = f) (offensive b p) = [data b ! nat f]"
proof -
  have "filter (\<lambda>t. terr_id t = f) (offensive b p)
        = filter (\<lambda>t. terr_owner t = p \<and> 1 < terr_armies t) (filter (\<lambda>t. terr_id t = f) (data b))"
    unfolding offensive_def filter_filter by (rule filter_cong) auto
  also have "\<dots> = filter (\<lambda>t. terr_owner t = p \<and> 1 < terr_armies t) [data b ! nat f]"
    by (simp only: filter_by_id [OF assms(1,2,3)])
  also have "\<dots> = [data b ! nat f]"
    using assms(4,5) by simp
  finally show ?thesis .
qed

lemma hostile_neighbors_Inr:
  assumes "hostile_neighbors defs b f = Inr hs" and "owner b f = Inr p"
  shows "\<exists>ns. territory_neighbors defs f = Some ns
           \<and> hs = filter (\<lambda>t. terr_owner t \<noteq> p \<and> terr_id t \<in> set ns) (data b)"
proof (cases "territory_neighbors defs f")
  case None
  with assms show ?thesis by (simp add: hostile_neighbors_def)
next
  case (Some ns)
  with assms show ?thesis by (simp add: hostile_neighbors_def)
qed

lemma attacks_from_territory:
  assumes "self_indexed b" and "0 \<le> f" and "owner b f = Inr p" and "armies b f = Inr fa"
    and "1 < fa" and "hostile_neighbors defs b f = Inr hs"
  shows "filter (\<lambda>a. fst a = f) (concat (map (attacks_of defs b) (offensive b p)))
         = map (\<lambda>(t, tp, ta). (f, fa, t, tp, ta)) hs"
proof -
  let ?r = "data b ! nat f"
  from lookup_nonneg(1) [OF assms(2,3)] have len: "f < int (length (data b))"
    and rp: "terr_owner ?r = p" by blast+
  from lookup_nonneg(2) [OF assms(2,4)] have ra: "terr_armies ?r = fa" by blast
  from assms(2) len have "nat f < length (data b)" by simp
  with assms(1) have "terr_id ?r = int (nat f)" by (simp only: self_indexed_nth)
  with assms(2) have ri: "terr_id ?r = f" by simp
  from ra assms(5) have big: "1 < terr_armies ?r" by simp
  have sel: "filter (\<lambda>t. terr_id t = f) (offensive b p) = [?r]"
    using assms(1,2) len rp big by (rule offensive_by_id)
  from hostile_neighbors_Inr [OF assms(6,3)] obtain ns
    where ns: "territory_neighbors defs f = Some ns"
      and hs: "hs = filter (\<lambda>t. terr_owner t \<noteq> p \<and> terr_id t \<in> set ns) (data b)"
    by blast
  have "filter (\<lambda>a. fst a = f) (concat (map (attacks_of defs b) (offensive b p)))
        = concat (map (attacks_of defs b) [?r])"
    by (simp only: filter_from_concat sel)
  also have "\<dots> = attacks_of defs b ?r" by simp
  also have "\<dots> = map (\<lambda>(t, tp, ta). (f, fa, t, tp, ta)) hs"
    unfolding attacks_of_def ri rp ra ns hs by simp
  finally show ?thesis .
qed

text \<open>
  Claim C6 (as amended). For every board with positional agreement (the record at
  position \<open>i\<close> has id \<open>i\<close>, as \<open>Board.create\<close> makes it), every neighbour table that has a
  list for each territory id of the board, and every player: \<open>possible_attacks\<close> returns a
  list whose set of elements is exactly the set of the tuples
  \<open>(from_id, from_armies, to_id, to_owner, to_armies)\<close> of the specification; no tuple has
  as \<open>from_id\<close> a territory whose army count is 1; and for a territory of the player with
  \<open>fa > 1\<close> armies, the tuples with that \<open>from_id\<close> are, in order, one per hostile neighbour,
  each with \<open>from_armies = fa\<close> (two tuples with \<open>from_armies = 3\<close> for a territory of 3
  armies with two hostile neighbours).
\<close>

theorem possible_attacks_join:
  assumes "self_indexed b"
    and "\<forall>t \<in> set (data b). territory_neighbors defs (terr_id t) \<noteq> None"
  shows "\<exists>as. possible_attacks defs b p = Inr as
       \<and> set as = attack_set defs b p
       \<and> (\<forall>f. armies b f = Inr 1 \<longrightarrow> (\<forall>a \<in> set as. fst a \<noteq> f))
       \<and> (\<forall>f fa hs. 0 \<le> f \<and> owner b f = Inr p \<and> armies b f = Inr fa \<and> 1 < fa
                    \<and> hostile_neighbors defs b f = Inr hs
             \<longrightarrow> filter (\<lambda>a. fst a = f) as = map (\<lambda>(t, tp, ta). (f, fa, t, tp, ta)) hs)"
proof -
  let ?as = "concat (map (attacks_of defs b) (offensive b p))"
  have run: "possible_attacks defs b p = Inr ?as"
    using assms by (rule possible_attacks_run)
  have c1: "set ?as = attack_set defs b p"
    by (rule set_eqI) (rule attacks_mem)
  have c2: "\<forall>f. armies b f = Inr 1 \<longrightarrow> (\<forall>a \<in> set ?as. fst a \<noteq> f)"
    using one_army_never_attacks [OF assms(1)] by blast
  have c3: "\<forall>f fa hs. 0 \<le> f \<and> owner b f = Inr p \<and> armies b f = Inr fa \<and> 1 < fa
                    \<and> hostile_neighbors defs b f = Inr hs
             \<longrightarrow> filter (\<lambda>a. fst a = f) ?as = map (\<lambda>(t, tp, ta). (f, fa, t, tp, ta)) hs"
    using attacks_from_territory [OF assms(1)] by blast
  from run c1 c2 c3 show ?thesis by blast
qed

text \<open>
  Four territories: territory 0 of player 0 has 3 armies and the hostile neighbours 1
  and 2; territory 3 of player 0 has one army and the hostile neighbour 2.
\<close>

theorem possible_attacks_join_witness:
  "self_indexed (Board [(0, 0, 3), (1, 1, 1), (2, 2, 5), (3, 0, 1)])
   \<and> list_all
        (\<lambda>t. territory_neighbors
               \<lparr>territory_neighbors = [0 \<mapsto> [1, 2, 3], 1 \<mapsto> [0], 2 \<mapsto> [0, 3], 3 \<mapsto> [0, 2]],
                continent_territories = Map.empty, continent_bonuses = []\<rparr>
               (terr_id t) \<noteq> None)
        (data (Board [(0, 0, 3), (1, 1, 1), (2, 2, 5), (3, 0, 1)]))
   \<and> possible_attacks
        \<lparr>territory_neighbors = [0 \<mapsto> [1, 2, 3], 1 \<mapsto> [0], 2 \<mapsto> [0, 3], 3 \<mapsto> [0, 2]],
         continent_territories = Map.empty, continent_bonuses = []\<rparr>
        (Board [(0, 0, 3), (1, 1, 1), (2, 2, 5), (3, 0, 1)]) 0
       = Inr [(0, 3, 1, 1, 1), (0, 3, 2, 2, 5)]
   \<and> set [(0, 3, 1, 1, 1), (0, 3, 2, 2, 5)]
       = attack_set
           \<lparr>territory_neighbors = [0 \<mapsto> [1, 2, 3], 1 \<mapsto> [0], 2 \<mapsto> [0, 3], 3 \<mapsto> [0, 2]],
            continent_territories = Map.empty, continent_bonuses = []\<rparr>
           (Board [(0, 0, 3), (1, 1, 1), (2, 2, 5), (3, 0, 1)]) 0
   \<and> armies (Board [(0, 0, 3), (1, 1, 1), (2, 2, 5), (3, 0, 1)]) 3 = Inr 1
   \<and> list_all (\<lambda>a. fst a \<noteq> 3) ([(0, 3, 1, 1, 1), (0, 3, 2, 2, 5)] :: attack list)
   \<and> hostile_neighbors
        \<lparr>territory_neighbors = [0 \<mapsto> [1, 2, 3], 1 \<mapsto> [0], 2 \<mapsto> [0, 3], 3 \<mapsto> [0, 2]],
         continent_territories = Map.empty, continent_bonuses = []\<rparr>
        (Board [(0, 0, 3), (1, 1, 1), (2, 2, 5), (3, 0, 1)]) 0
       = Inr [(1, 1, 1), (2, 2, 5)]
   \<and> filter (\<lambda>a. fst a = 0) ([(0, 3, 1, 1, 1), (0, 3, 2, 2, 5)] :: attack list)
       = [(0, 3, 1, 1, 1), (0, 3, 2, 2, 5)]"
proof -
  let ?d = "\<lparr>territory_neighbors = [0 \<mapsto> [1, 2, 3], 1 \<mapsto> [0], 2 \<mapsto> [0, 3], 3 \<mapsto> [0, 2]],
             continent_territories = Map.empty, continent_bonuses = []\<rparr>"
  let ?b = "Board [(0, 0, 3), (1, 1, 1), (2, 2, 5), (3, 0, 1)]"
  let ?as = "[(0, 3, 1, 1, 1), (0, 3, 2, 2, 5)] :: attack list"
  have h1: "self_indexed ?b" by (simp add: self_indexed_def upt_rec)
  have h2: "\<forall>t \<in> set (data ?b). territory_neighbors ?d (terr_id t) \<noteq> None" by simp
  have la: "list_all (\<lambda>t. territory_neighbors ?d (terr_id t) \<noteq> None) (data ?b)" by simp
  have o: "owner ?b 0 = Inr 0" and a0: "armies ?b 0 = Inr 3" and a3: "armies ?b 3 = Inr 1"
    by (simp_all add: owner_def armies_def getitem_def index_py_def)
  have hn: "hostile_neighbors ?d ?b 0 = Inr [(1, 1, 1), (2, 2, 5)]"
    by (simp add: hostile_neighbors_def o)
  have run: "possible_attacks ?d ?b 0 = Inr ?as"
    by (simp add: possible_attacks_def offensive_def hn)
  from possible_attacks_join [OF h1 h2, of 0] obtain as
    where r: "possible_attacks ?d ?b 0 = Inr as"
      and s': "set as = attack_set ?d ?b 0"
      and n': "\<forall>f. armies ?b f = Inr 1 \<longrightarrow> (\<forall>a \<in> set as. fst a \<noteq> f)"
      and g': "\<forall>f fa hs. 0 \<le> f \<and> owner ?b f = Inr 0 \<and> armies ?b f = Inr fa \<and> 1 < fa
                    \<and> hostile_neighbors ?d ?b f = Inr hs
             \<longrightarrow> filter (\<lambda>a. fst a = f) as = map (\<lambda>(t, tp, ta). (f, fa, t, tp, ta)) hs"
    by blast
  from r run have as: "as = ?as" by simp
  note s = s' [unfolded as] and n = n' [unfolded as] and g = g' [unfolded as]
  from n a3 have n3: "list_all (\<lambda>a. fst a \<noteq> 3) ?as"
    unfolding list_all_iff by blast
  from g have "0 \<le> (0::int) \<and> owner ?b 0 = Inr 0 \<and> armies ?b 0 = Inr 3 \<and> 1 < (3::int)
                    \<and> hostile_neighbors ?d ?b 0 = Inr [(1, 1, 1), (2, 2, 5)]
             \<longrightarrow> filter (\<lambda>a. fst a = 0) ?as
                 = map (\<lambda>(t, tp, ta). (0, 3, t, tp, ta)) [(1, 1, 1), (2, 2, 5)]"
    by blast
  with o a0 hn have "filter (\<lambda>a. fst a = 0) ?as
      = map (\<lambda>(t, tp, ta). (0, 3, t, tp, ta)) [(1, 1, 1), (2, 2, 5)]"
    by simp
  then have f0: "filter (\<lambda>a. fst a = 0) ?as = ?as" by simp
  from h1 la run s a3 n3 hn f0 show ?thesis by (intro conjI)
qed

text \<open>
  Claim C6 as stated fails on a board whose records are not stored in the order of their
  ids: on the board \<open>[(1, 0, 3), (0, 1, 2)]\<close> with territories 0 and 1 adjacent, territory
  1 of player 0 holds 3 armies next to territory 0 of player 1, yet \<open>possible_attacks(0)\<close>
  is empty, because \<open>hostile_neighbors(1)\<close> reads the attacker's owner at position 1,
  which is player 1.
\<close>

theorem possible_attacks_position_counterexample:
  "possible_attacks
      \<lparr>territory_neighbors = [0 \<mapsto> [1], 1 \<mapsto> [0]],
       continent_territories = Map.empty, continent_bonuses = []\<rparr>
      (Board [(1, 0, 3), (0, 1, 2)]) 0 = Inr []
   \<and> (1, 3, 0, 1, 2)
       \<in> attack_set
           \<lparr>territory_neighbors = [0 \<mapsto> [1], 1 \<mapsto> [0]],
            continent_territories = Map.empty, continent_bonuses = []\<rparr>
           (Board [(1, 0, 3), (0, 1, 2)]) 0
   \<and> owner (Board [(1, 0, 3), (0, 1, 2)]) 1 = Inr 1"
  by (simp add: possible_attacks_def offensive_def hostile_neighbors_def attack_set_def run_defs)

end
